theory Spec2Isabelle
  imports Complex_Main
begin

section \<open>Python values and builtins used by the VLP runtime\<close>

text \<open>
  A Python \<open>str\<close> is modelled as a \<open>string\<close>: a list of characters with code points
  0 to 255 (the Latin-1 part of Unicode). The functions below follow the behaviour of the
  CPython builtins on that range.
\<close>

definition is_space :: "char \<Rightarrow> bool" where
  \<comment> \<open>\<open>str.isspace\<close> on one character: the characters \<open>str.strip()\<close> removes\<close>
  "is_space c = (of_char c \<in> {9, 10, 11, 12, 13, 28, 29, 30, 31, 32, 133, 160 :: nat})"

definition strip :: "string \<Rightarrow> string" where
  \<comment> \<open>\<open>s.strip()\<close>\<close>
  "strip s = rev (dropWhile is_space (rev (dropWhile is_space s)))"

definition lower_char :: "char \<Rightarrow> char" where
  \<comment> \<open>\<open>A\<close> to \<open>Z\<close> and the Latin-1 capitals (0xC0 to 0xDE without 0xD7) move up by 32\<close>
  "lower_char c =
     (let n = (of_char c :: nat)
      in if (65 \<le> n \<and> n \<le> 90) \<or> (192 \<le> n \<and> n \<le> 222 \<and> n \<noteq> 215)
         then char_of (n + 32) else c)"

definition lower :: "string \<Rightarrow> string" where
  \<comment> \<open>\<open>s.lower()\<close>\<close>
  "lower s = map lower_char s"

function replace :: "string \<Rightarrow> string \<Rightarrow> string \<Rightarrow> string" where
  \<comment> \<open>\<open>s.replace(old, new)\<close>: every non-overlapping occurrence, from the left\<close>
  "replace old new s =
     (if old = [] then new @ concat (map (\<lambda>c. c # new) s)
      else if s = [] then []
      else if take (length old) s = old then new @ replace old new (drop (length old) s)
      else hd s # replace old new (tl s))"
  by pat_completeness auto
termination
  by (relation "measure (\<lambda>(old, new, s). length s)") (auto simp: neq_Nil_conv)

declare replace.simps [simp del]

definition last_n :: "nat \<Rightarrow> string \<Rightarrow> string" where
  \<comment> \<open>the slice \<open>s[-n:]\<close> for \<open>n > 0\<close>\<close>
  "last_n n s = drop (length s - n) s"

definition join :: "string \<Rightarrow> string list \<Rightarrow> string" where
  \<comment> \<open>\<open>sep.join(xs)\<close>\<close>
  "join sep xs = (case xs of [] \<Rightarrow> [] | y # ys \<Rightarrow> y @ concat (map (\<lambda>z. sep @ z) ys))"

fun str_nat :: "nat \<Rightarrow> string" where
  "str_nat n = (if n < 10 then [char_of (48 + n)] else str_nat (n div 10) @ [char_of (48 + n mod 10)])"

declare str_nat.simps [simp del]

definition str_int :: "int \<Rightarrow> string" where
  \<comment> \<open>\<open>str(i)\<close> and the format \<open>{i}\<close> of an \<open>int\<close>\<close>
  "str_int i = (if i < 0 then CHR ''-'' # str_nat (nat (- i)) else str_nat (nat i))"

definition zfill :: "nat \<Rightarrow> string \<Rightarrow> string" where
  "zfill w s = replicate (w - length s) (CHR ''0'') @ s"

definition fmt_04d :: "int \<Rightarrow> string" where
  \<comment> \<open>the format \<open>{i:04d}\<close>: zero padding to width 4, the sign counted in the width\<close>
  "fmt_04d i = (if i < 0 then CHR ''-'' # zfill 3 (str_nat (nat (- i))) else zfill 4 (str_nat (nat i)))"

text \<open>
  A Python \<open>float\<close> is an IEEE double; a finite one is modelled by its exact value. The
  only operations the runtime applies to floats are the conversion \<open>float(...)\<close> and the
  comparison with the literal \<open>0.9\<close>, which denotes the double
  \<open>8106479329266893 / 2 ^ 53\<close>.
\<close>

datatype pyfloat = Fin real | PosInf | NegInf | NaN

definition float_0_9 :: real where
  "float_0_9 = 8106479329266893 / 9007199254740992"

fun float_ge :: "pyfloat \<Rightarrow> real \<Rightarrow> bool" where
  \<comment> \<open>\<open>x >= c\<close> for a float \<open>x\<close> and a finite constant \<open>c\<close>\<close>
  "float_ge (Fin x) c = (c \<le> x)"
| "float_ge PosInf c = True"
| "float_ge NegInf c = False"
| "float_ge NaN c = False"

text \<open>
  The values that travel through the runtime: what JSON can hold. A \<open>dict\<close> with
  string keys is an association list in insertion order, without duplicate keys.
\<close>

datatype pyval =
    PNone
  | PBool bool
  | PInt int
  | PFloat pyfloat
  | PStr string
  | PList "pyval list"
  | PDict "(string \<times> pyval) list"

type_synonym pydict = "(string \<times> pyval) list"

fun truthy :: "pyval \<Rightarrow> bool" where
  \<comment> \<open>\<open>bool(v)\<close>, as used by \<open>not v\<close> and \<open>v or w\<close>\<close>
  "truthy PNone = False"
| "truthy (PBool b) = b"
| "truthy (PInt i) = (i \<noteq> 0)"
| "truthy (PFloat (Fin x)) = (x \<noteq> 0)"
| "truthy (PFloat _) = True"
| "truthy (PStr s) = (s \<noteq> [])"
| "truthy (PList xs) = (xs \<noteq> [])"
| "truthy (PDict kvs) = (kvs \<noteq> [])"

definition py_or :: "pyval \<Rightarrow> pyval \<Rightarrow> pyval" where
  \<comment> \<open>\<open>a or b\<close>\<close>
  "py_or a b = (if truthy a then a else b)"

definition dict_get :: "pydict \<Rightarrow> string \<Rightarrow> pyval \<Rightarrow> pyval" where
  \<comment> \<open>\<open>d.get(k, default)\<close>; \<open>d.get(k)\<close> is \<open>dict_get d k PNone\<close>\<close>
  "dict_get d k dflt = (case map_of d k of None \<Rightarrow> dflt | Some v \<Rightarrow> v)"

definition dict_set :: "pydict \<Rightarrow> string \<Rightarrow> pyval \<Rightarrow> pydict" where
  \<comment> \<open>\<open>d[k] = v\<close>: an existing key keeps its position, a new key goes last\<close>
  "dict_set d k v =
     (if k \<in> fst ` set d then map (\<lambda>(k', v'). if k' = k then (k', v) else (k', v')) d
      else d @ [(k, v)])"

definition dict_pop :: "('k \<rightharpoonup> 'v) \<Rightarrow> 'k \<Rightarrow> ('k \<rightharpoonup> 'v)" where
  \<comment> \<open>\<open>d.pop(k, None)\<close>, the returned value dropped\<close>
  "dict_pop d k = d(k := None)"

section \<open>Clock and random source\<close>

text \<open>
  The clock and the random source are inputs: \<open>today\<close> is the UTC date that
  \<open>datetime.now(timezone.utc)\<close> reads, \<open>now_full\<close> the text of
  \<open>datetime.now(timezone.utc).isoformat().replace("+00:00", "Z")\<close>, \<open>now_second\<close>
  the text \<open>now_iso()\<close> returns, and \<open>uuid_hex\<close> the 32 hexadecimal digits of
  \<open>uuid.uuid4().hex\<close>.
\<close>

record date =
  year :: nat
  month :: nat
  day :: nat

record env =
  today :: date
  now_full :: string
  now_second :: string
  uuid_hex :: string

definition strftime_Y_m_d :: "date \<Rightarrow> string" where
  \<comment> \<open>\<open>strftime("%Y-%m-%d")\<close>\<close>
  "strftime_Y_m_d d =
     str_nat (year d) @ ''-'' @ zfill 2 (str_nat (month d)) @ ''-'' @ zfill 2 (str_nat (day d))"

section \<open>The Python library the runtime calls\<close>

text \<open>
  The schema document \<open>vlp-1.1.json\<close> that \<open>schema.py\<close> loads is not part of the
  sources, and three library functions depend on the float parser, the float printer and
  the JSON parser of CPython. They are parameters of the model, and every theorem that
  does not fix them holds for all of them:
  \<^item> \<open>schema_validate msg\<close> is \<open>jsonschema.validate(instance=msg, schema=vlp_1_1)\<close>:
    \<open>None\<close> when it returns, \<open>Some (str e)\<close> when it raises the exception \<open>e\<close>;
  \<^item> \<open>float_of_str s\<close> is \<open>float(s)\<close> for a \<open>str\<close>: \<open>None\<close> when it raises;
  \<^item> \<open>repr_of v\<close> is \<open>str(v)\<close> for a float, a list or a dict;
  \<^item> \<open>json_loads line\<close> is \<open>json.loads(line)\<close>: \<open>None\<close> when it raises.
\<close>

record pylib =
  schema_validate :: "pydict \<Rightarrow> string option"
  float_of_str :: "string \<Rightarrow> pyfloat option"
  repr_of :: "pyval \<Rightarrow> string"
  json_loads :: "string \<Rightarrow> pyval option"

function bit_length :: "int \<Rightarrow> nat" where
  \<comment> \<open>\<open>n.bit_length()\<close> for \<open>n >= 0\<close>\<close>
  "bit_length n = (if n \<le> 0 then 0 else Suc (bit_length (n div 2)))"
  by pat_completeness auto
termination
  by (relation "measure nat") auto

declare bit_length.simps [simp del]

definition double_of_int :: "int \<Rightarrow> int" where
  \<comment> \<open>the value of the double nearest to the \<open>int\<close> \<open>i\<close>, as \<open>float(i)\<close> rounds: an
      integer of at most 53 bits is kept, a longer one is cut to 53 bits, a tie going to
      the even significand\<close>
  "double_of_int i =
     (let n = \<bar>i\<bar>; k = bit_length n
      in if k \<le> 53 then i
         else let sh = k - 53; q = n div 2 ^ sh; r = n mod 2 ^ sh;
                  q = (if 2 ^ sh < 2 * r \<or> (2 * r = 2 ^ sh \<and> odd q) then q + 1 else q)
              in if i < 0 then - (q * 2 ^ sh) else q * 2 ^ sh)"

fun py_float :: "pylib \<Rightarrow> pyval \<Rightarrow> pyfloat option" where
  \<comment> \<open>\<open>float(v)\<close>; \<open>None\<close> when it raises. An \<open>int\<close> is rounded to the nearest double, and
      \<open>float\<close> raises \<open>OverflowError\<close> when that is beyond the largest double.\<close>
  "py_float L (PFloat x) = Some x"
| "py_float L (PInt i) =
     (let x = double_of_int i in if \<bar>x\<bar> < 2 ^ 1024 then Some (Fin (of_int x)) else None)"
| "py_float L (PBool b) = Some (Fin (if b then 1 else 0))"
| "py_float L (PStr s) = float_of_str L s"
| "py_float L PNone = None"
| "py_float L (PList xs) = None"
| "py_float L (PDict kvs) = None"

fun py_str :: "pylib \<Rightarrow> pyval \<Rightarrow> string" where
  \<comment> \<open>\<open>str(v)\<close>\<close>
  "py_str L (PStr s) = s"
| "py_str L PNone = ''None''"
| "py_str L (PBool b) = (if b then ''True'' else ''False'')"
| "py_str L (PInt i) = str_int i"
| "py_str L (PFloat x) = repr_of L (PFloat x)"
| "py_str L (PList xs) = repr_of L (PList xs)"
| "py_str L (PDict kvs) = repr_of L (PDict kvs)"

section \<open>runtime.py\<close>

datatype pyerror =
    FloatConversionError         \<comment> \<open>the \<open>ValueError\<close>, \<open>TypeError\<close> or \<open>OverflowError\<close> of \<open>float(...)\<close>\<close>
  | ValidationFailed string      \<comment> \<open>the \<open>ValueError\<close> of \<open>make_message\<close>, with its text\<close>
  | DuplicateKeyword string      \<comment> \<open>the \<open>TypeError\<close> of a keyword passed twice\<close>
  | JSONDecodeError              \<comment> \<open>raised by \<open>json.loads\<close>\<close>

definition new_id :: "env \<Rightarrow> string \<Rightarrow> string" where
  "new_id e prefix = prefix @ take 8 (uuid_hex e)"

definition now_iso :: "env \<Rightarrow> string" where
  "now_iso e = now_second e"

fun as_list :: "pyval \<Rightarrow> pyval list" where
  \<comment> \<open>\<open>_as_list\<close>\<close>
  "as_list PNone = []"
| "as_list (PList xs) = xs"
| "as_list v = [v]"

definition list_or_as_list :: "pyval \<Rightarrow> pyval list" where
  \<comment> \<open>\<open>v if isinstance(v, list) else _as_list(v)\<close>\<close>
  "list_or_as_list v = (case v of PList xs \<Rightarrow> xs | _ \<Rightarrow> as_list v)"

definition default_safety :: pydict where
  "default_safety = [(''level'', PStr ''safe''), (''issues'', PList [])]"

definition semantic_validate :: "pylib \<Rightarrow> pydict \<Rightarrow> bool \<times> string option" where
  \<comment> \<open>\<open>_semantic_validate\<close>. In \<open>(safety or {}).get("level")\<close> an empty \<open>safety\<close> is
      replaced by an empty dict, so the lookup is on \<open>safety\<close> itself.\<close>
  "semantic_validate L msg =
     (let t = strip (py_str L (py_or (dict_get msg ''type'' PNone) (PStr '''')))
      in if t \<noteq> lower t then (False, Some ''type must be lowercase'')
      else let conf = dict_get msg ''confidence'' PNone
      in if conf = PNone then (False, Some ''confidence is required'')
      else case py_float L conf of
        None \<Rightarrow> (False, Some ''confidence must be a number'')
      | Some conf_f \<Rightarrow>
         (let prov = dict_get msg ''provenance'' (PList []);
              prov_list = (case prov of PList xs \<Rightarrow> xs | _ \<Rightarrow> []);
              safety = (case dict_get msg ''safety'' PNone of PDict d \<Rightarrow> d | _ \<Rightarrow> default_safety);
              safety_level = py_str L (py_or (dict_get safety ''level'' PNone) (PStr ''safe''));
              refers_to = dict_get msg ''refers_to'' PNone
          in if t = ''evidence'' \<and> \<not> truthy refers_to
               then (False, Some ''evidence messages must include refers_to'')
             else if t = ''evidence'' \<and> prov_list = []
               then (False, Some ''evidence messages must include non-empty provenance'')
             else if (t = ''response'' \<or> t = ''correction'') \<and> \<not> truthy refers_to
               then (False, Some (t @ '' messages must include refers_to''))
             else if float_ge conf_f float_0_9 \<and> prov_list = [] \<and> safety_level \<noteq> ''review''
               then (False, Some ''confidence >= 0.9 requires provenance or safety.level=review'')
             else (True, None)))"

definition validate_vlp :: "pylib \<Rightarrow> pydict \<Rightarrow> bool \<times> string option" where
  "validate_vlp L msg =
     (case schema_validate L msg of
        Some e \<Rightarrow> (False, Some e)
      | None \<Rightarrow> semantic_validate L msg)"

fun fromkeys :: "'a list \<Rightarrow> 'a list \<Rightarrow> 'a list" where
  \<comment> \<open>the keys of \<open>dict.fromkeys(xs)\<close> in insertion order, \<open>acc\<close> being the keys so far\<close>
  "fromkeys acc [] = acc"
| "fromkeys acc (x # xs) = fromkeys (if x \<in> set acc then acc else acc @ [x]) xs"

definition normalize_keywords :: "pyval list \<Rightarrow> string list" where
  \<comment> \<open>\<open>list(dict.fromkeys(k.lower().strip() for k in keywords_list
        if isinstance(k, str) and k.strip()))\<close>\<close>
  "normalize_keywords ks =
     fromkeys [] (concat (map (\<lambda>k. case k of
        PStr s \<Rightarrow> (if strip s \<noteq> [] then [strip (lower s)] else [])
      | _ \<Rightarrow> []) ks))"

definition escalation_issue :: pyval where
  "escalation_issue = PDict [(''code'', PStr ''missing_provenance_high_confidence''),
                             (''detail'', PStr ''confidence >= 0.9 without provenance'')]"

definition normalize_safety :: "pyval \<Rightarrow> pydict" where
  \<comment> \<open>the three \<open>if\<close> statements that complete the \<open>safety\<close> argument\<close>
  "normalize_safety v =
     (let safety = (case v of PDict d \<Rightarrow> d | _ \<Rightarrow> default_safety);
          safety = (if ''issues'' \<notin> fst ` set safety
                       \<or> (case dict_get safety ''issues'' PNone of PList xs \<Rightarrow> False | _ \<Rightarrow> True)
                    then dict_set safety ''issues'' (PList []) else safety);
          safety = (if ''level'' \<notin> fst ` set safety
                    then dict_set safety ''level'' (PStr ''safe'') else safety)
      in safety)"

definition escalate :: "pylib \<Rightarrow> pyfloat \<Rightarrow> pyval list \<Rightarrow> pydict \<Rightarrow> pydict" where
  \<comment> \<open>the auto-escalation statement; \<open>safety["issues"]\<close> is a list after \<open>normalize_safety\<close>\<close>
  "escalate L confidence provenance_list safety =
     (if float_ge confidence float_0_9 \<and> provenance_list = []
         \<and> py_str L (dict_get safety ''level'' PNone) \<noteq> ''review''
      then let safety = dict_set safety ''level'' (PStr ''review'')
           in dict_set safety ''issues''
                (PList (as_list (dict_get safety ''issues'' PNone) @ [escalation_issue]))
      else safety)"

definition assemble_message ::
  "pylib \<Rightarrow> env \<Rightarrow> string \<Rightarrow> string \<Rightarrow> pyval \<Rightarrow> pydict \<Rightarrow> pyerror + pydict" where
  \<comment> \<open>the body of \<open>make_message(type_, sender, content, **kw)\<close> up to the dict \<open>msg\<close>;
      \<open>type0\<close> is \<open>type_\<close>, \<open>Inl\<close> is the exception raised\<close>
  "assemble_message L e type0 sender content kw =
     (let t = lower (strip type0)
      in case py_float L (dict_get kw ''confidence'' (PFloat (Fin 1))) of
        None \<Rightarrow> Inl FloatConversionError
      | Some confidence \<Rightarrow>
         (let provenance_list = list_or_as_list (dict_get kw ''provenance'' (PList []));
              constraints_list = list_or_as_list (dict_get kw ''constraints'' (PList []));
              safety = normalize_safety (dict_get kw ''safety'' (PDict default_safety));
              safety = escalate L confidence provenance_list safety;
              keywords_list = list_or_as_list (dict_get kw ''keywords'' (PList []));
              keywords_list = normalize_keywords keywords_list;
              msg = [(''id'', py_or (dict_get kw ''id'' PNone) (PStr (new_id e ''MSG''))),
                     (''protocol'', PStr ''VLP/1.1''),
                     (''type'', PStr t),
                     (''timestamp'', py_or (dict_get kw ''timestamp'' PNone) (PStr (now_iso e))),
                     (''session_id'', dict_get kw ''session_id'' PNone),
                     (''seq'', dict_get kw ''seq'' PNone),
                     (''sender'', PStr sender),
                     (''receiver'', dict_get kw ''receiver'' PNone),
                     (''topic'', dict_get kw ''topic'' PNone),
                     (''content'', content),
                     (''confidence'', PFloat confidence),
                     (''provenance'', PList provenance_list),
                     (''constraints'', PList constraints_list),
                     (''safety'', PDict safety),
                     (''refers_to'', dict_get kw ''refers_to'' PNone),
                     (''keywords'', PList (map PStr keywords_list)),
                     (''payload'', dict_get kw ''payload'' PNone),
                     (''_extras'', dict_get kw ''_extras'' (PDict []))]
          in Inr msg))"

definition make_message ::
  "pylib \<Rightarrow> env \<Rightarrow> string \<Rightarrow> string \<Rightarrow> pyval \<Rightarrow> pydict \<Rightarrow> pyerror + pydict" where
  \<comment> \<open>\<open>make_message\<close>: the assembled dict is validated, then returned\<close>
  "make_message L e type0 sender content kw =
     (case assemble_message L e type0 sender content kw of
        Inl exn \<Rightarrow> Inl exn
      | Inr msg \<Rightarrow>
          (case validate_vlp L msg of
             (True, err) \<Rightarrow> Inr msg
           | (False, err) \<Rightarrow>
               Inl (ValidationFailed (''VLP validation failed: ''
                      @ (case err of Some d \<Rightarrow> d | None \<Rightarrow> ''None'')))))"

subsection \<open>Arguments that share an object with the safety argument\<close>

text \<open>
  \<open>make_message\<close> changes two objects in place: the dict it takes as \<open>safety\<close>, whose keys
  \<open>issues\<close> and \<open>level\<close> it sets, and the list under the key \<open>issues\<close> of that dict, to
  which the escalation appends. A caller may pass either object in other places of the
  same call, as another argument or inside one; the message then holds the changed object
  there as well. \<open>assemble_message\<close> and \<open>make_message\<close> above are the calls none of
  whose arguments shares such an object. The definitions below are the general case: they
  follow the same statements on arguments that say where the two objects occur.

  An argument is
  \<^item> \<open>Plain v\<close>: a value that holds neither object;
  \<^item> \<open>SList xs\<close>, \<open>SDict kvs\<close>: a list or a dict of its own, written in the call, whose
    entries are arguments again;
  \<^item> \<open>Ref r\<close>: the object \<open>r\<close> itself.

  The caller's two objects are \<open>SafetyDict\<close>, a dict, and \<open>IssuesList\<close>, a list;
  \<open>shared_objects\<close> gives what they hold when the call starts. The entries of the dict may
  be or hold the list (\<open>Ref InnerIssues\<close>); the list holds plain values. An object that
  holds itself is not represented. The message that is returned is read once all
  statements have run: every field is the value that its object has then.
\<close>

datatype 'r parg =
    Plain pyval
  | SList "'r parg list"
  | SDict "(string \<times> 'r parg) list"
  | Ref 'r

fun resolve :: "('r \<Rightarrow> pyval) \<Rightarrow> 'r parg \<Rightarrow> pyval" where
  \<comment> \<open>the value of an argument, \<open>\<rho> r\<close> being the value of the object \<open>r\<close>\<close>
  "resolve \<rho> (Plain v) = v"
| "resolve \<rho> (SList xs) = PList (map (resolve \<rho>) xs)"
| "resolve \<rho> (SDict kvs) = PDict (map (\<lambda>(k, a). (k, resolve \<rho> a)) kvs)"
| "resolve \<rho> (Ref r) = \<rho> r"

definition is_ref :: "'r parg \<Rightarrow> bool" where
  \<comment> \<open>the argument is one of the caller's two objects itself\<close>
  "is_ref a = (case a of Ref r \<Rightarrow> True | _ \<Rightarrow> False)"

datatype inner_ref = InnerIssues

datatype call_ref = SafetyDict | IssuesList

record shared_objects =
  safety_entries :: "(string \<times> inner_ref parg) list"
  issues_items :: "pyval list"

definition shared_safety_now :: "shared_objects \<Rightarrow> pydict" where
  \<comment> \<open>what the dict \<open>SafetyDict\<close> holds\<close>
  "shared_safety_now objs =
     map (\<lambda>(k, a). (k, resolve (\<lambda>r. PList (issues_items objs)) a)) (safety_entries objs)"

definition arg_value :: "shared_objects \<Rightarrow> call_ref parg \<Rightarrow> pyval" where
  \<comment> \<open>the value of an argument of the call while the two objects hold \<open>objs\<close>\<close>
  "arg_value objs a =
     resolve (\<lambda>r. case r of SafetyDict \<Rightarrow> PDict (shared_safety_now objs)
                            | IssuesList \<Rightarrow> PList (issues_items objs)) a"

definition entry_get :: "(string \<times> 'a) list \<Rightarrow> string \<Rightarrow> 'a \<Rightarrow> 'a" where
  \<comment> \<open>\<open>d.get(k, default)\<close> on a dict of arguments\<close>
  "entry_get d k dflt = (case map_of d k of None \<Rightarrow> dflt | Some a \<Rightarrow> a)"

definition entry_set :: "(string \<times> 'a) list \<Rightarrow> string \<Rightarrow> 'a \<Rightarrow> (string \<times> 'a) list" where
  \<comment> \<open>\<open>d[k] = a\<close> on a dict of arguments\<close>
  "entry_set d k a =
     (if k \<in> fst ` set d then map (\<lambda>(k', a'). if k' = k then (k', a) else (k', a')) d
      else d @ [(k, a)])"

definition plain_entries :: "pydict \<Rightarrow> (string \<times> 'r parg) list" where
  \<comment> \<open>a dict none of whose values holds one of the two objects\<close>
  "plain_entries d = map (\<lambda>(k, v). (k, Plain v)) d"

definition list_or_as_list_arg :: "shared_objects \<Rightarrow> call_ref parg \<Rightarrow> call_ref parg" where
  \<comment> \<open>\<open>a if isinstance(a, list) else _as_list(a)\<close>: a list is returned as the object it is,
      \<open>None\<close> gives a new empty list, anything else a new list that holds it\<close>
  "list_or_as_list_arg objs a =
     (case arg_value objs a of PList xs \<Rightarrow> a | PNone \<Rightarrow> Plain (PList []) | _ \<Rightarrow> SList [a])"

datatype safety_var =
    Shared                                   \<comment> \<open>the variable \<open>safety\<close> is the caller's \<open>SafetyDict\<close>\<close>
  | Own "(string \<times> call_ref parg) list"     \<comment> \<open>it is a dict that no other argument holds\<close>

fun dict_object :: "call_ref parg \<Rightarrow> safety_var option" where
  \<comment> \<open>the dict that an argument is; \<open>None\<close> when \<open>isinstance(a, dict)\<close> is false\<close>
  "dict_object (Ref SafetyDict) = Some Shared"
| "dict_object (SDict es) = Some (Own es)"
| "dict_object (Plain (PDict d)) = Some (Own (plain_entries d))"
| "dict_object a = None"

type_synonym call_state = "shared_objects \<times> safety_var"

definition safety_now :: "call_state \<Rightarrow> pydict" where
  \<comment> \<open>what the dict \<open>safety\<close> holds\<close>
  "safety_now st =
     (case st of
        (objs, Shared) \<Rightarrow> shared_safety_now objs
      | (objs, Own es) \<Rightarrow> map (\<lambda>(k, a). (k, arg_value objs a)) es)"

definition safety_set :: "string \<Rightarrow> pyval \<Rightarrow> call_state \<Rightarrow> call_state" where
  \<comment> \<open>\<open>safety[k] = v\<close> for a new value \<open>v\<close>\<close>
  "safety_set k v st =
     (case st of
        (objs, Shared) \<Rightarrow>
          (objs\<lparr>safety_entries := entry_set (safety_entries objs) k (Plain v)\<rparr>, Shared)
      | (objs, Own es) \<Rightarrow> (objs, Own (entry_set es k (Plain v))))"

fun append_inline :: "'r parg \<Rightarrow> pyval \<Rightarrow> 'r parg option" where
  \<comment> \<open>\<open>a.append(v)\<close> on a list that only this entry holds; \<open>None\<close> otherwise\<close>
  "append_inline (Plain (PList xs)) v = Some (Plain (PList (xs @ [v])))"
| "append_inline (SList xs) v = Some (SList (xs @ [Plain v]))"
| "append_inline a v = None"

definition issues_append :: "pyval \<Rightarrow> call_state \<Rightarrow> call_state" where
  \<comment> \<open>\<open>safety["issues"].append(v)\<close>. The entry is a list when this statement runs; a list
      that is not the entry's own is the caller's \<open>IssuesList\<close>.\<close>
  "issues_append v st =
     (case st of
        (objs, Shared) \<Rightarrow>
          (case map_of (safety_entries objs) ''issues'' of
             None \<Rightarrow> st
           | Some a \<Rightarrow>
              (case append_inline a v of
                 Some a' \<Rightarrow>
                   (objs\<lparr>safety_entries := entry_set (safety_entries objs) ''issues'' a'\<rparr>, Shared)
               | None \<Rightarrow> (objs\<lparr>issues_items := issues_items objs @ [v]\<rparr>, Shared)))
      | (objs, Own es) \<Rightarrow>
          (case map_of es ''issues'' of
             None \<Rightarrow> st
           | Some a \<Rightarrow>
              (case append_inline a v of
                 Some a' \<Rightarrow> (objs, Own (entry_set es ''issues'' a'))
               | None \<Rightarrow> (objs\<lparr>issues_items := issues_items objs @ [v]\<rparr>, Own es))))"

definition complete_safety :: "call_state \<Rightarrow> call_state" where
  \<comment> \<open>the two \<open>if\<close> statements that set the keys \<open>issues\<close> and \<open>level\<close>\<close>
  "complete_safety st =
     (let st = (if ''issues'' \<notin> fst ` set (safety_now st)
                   \<or> (case dict_get (safety_now st) ''issues'' PNone of PList xs \<Rightarrow> False | _ \<Rightarrow> True)
                then safety_set ''issues'' (PList []) st else st);
          st = (if ''level'' \<notin> fst ` set (safety_now st)
                then safety_set ''level'' (PStr ''safe'') st else st)
      in st)"

definition escalate_in_place ::
  "pylib \<Rightarrow> pyfloat \<Rightarrow> call_ref parg \<Rightarrow> call_state \<Rightarrow> call_state" where
  \<comment> \<open>the auto-escalation statement\<close>
  "escalate_in_place L confidence provenance_list st =
     (if float_ge confidence float_0_9 \<and> arg_value (fst st) provenance_list = PList []
         \<and> py_str L (dict_get (safety_now st) ''level'' PNone) \<noteq> ''review''
      then issues_append escalation_issue (safety_set ''level'' (PStr ''review'') st)
      else st)"

definition safety_argument :: "(string \<times> call_ref parg) list \<Rightarrow> safety_var" where
  \<comment> \<open>\<open>safety = kw.get("safety", {"level": "safe", "issues": []})\<close>, replaced by a new
      default dict when it is not a dict\<close>
  "safety_argument kw =
     (case dict_object (entry_get kw ''safety'' (Plain (PDict default_safety))) of
        Some sv \<Rightarrow> sv
      | None \<Rightarrow> Own (plain_entries default_safety))"

definition safety_statements ::
  "pylib \<Rightarrow> pyfloat \<Rightarrow> (string \<times> call_ref parg) list \<Rightarrow> shared_objects \<Rightarrow> call_state" where
  \<comment> \<open>the statements of \<open>make_message\<close> from \<open>safety = kw.get("safety", ...)\<close> to the
      escalation: the two objects and the variable \<open>safety\<close> after them\<close>
  "safety_statements L confidence kw objs =
     (let provenance_list = list_or_as_list_arg objs (entry_get kw ''provenance'' (Plain (PList [])));
          safety = safety_argument kw
      in escalate_in_place L confidence provenance_list (complete_safety (objs, safety)))"

definition assemble_message_sharing ::
  "pylib \<Rightarrow> env \<Rightarrow> string \<Rightarrow> string \<Rightarrow> call_ref parg \<Rightarrow> (string \<times> call_ref parg) list
     \<Rightarrow> shared_objects \<Rightarrow> pyerror + pydict" where
  \<comment> \<open>the body of \<open>make_message\<close> up to the dict \<open>msg\<close>, read when it is complete\<close>
  "assemble_message_sharing L e type0 sender content kw objs0 =
     (let t = lower (strip type0)
      in case py_float L (arg_value objs0 (entry_get kw ''confidence'' (Plain (PFloat (Fin 1))))) of
        None \<Rightarrow> Inl FloatConversionError
      | Some confidence \<Rightarrow>
         (let provenance_list = list_or_as_list_arg objs0 (entry_get kw ''provenance'' (Plain (PList [])));
              constraints_list = list_or_as_list_arg objs0 (entry_get kw ''constraints'' (Plain (PList [])));
              st = safety_statements L confidence kw objs0;
              objs = fst st;
              keywords_list = list_or_as_list (arg_value objs (entry_get kw ''keywords'' (Plain (PList []))));
              keywords_list = normalize_keywords keywords_list;
              msg = [(''id'', py_or (arg_value objs (entry_get kw ''id'' (Plain PNone)))
                                    (PStr (new_id e ''MSG''))),
                     (''protocol'', PStr ''VLP/1.1''),
                     (''type'', PStr t),
                     (''timestamp'', py_or (arg_value objs (entry_get kw ''timestamp'' (Plain PNone)))
                                           (PStr (now_iso e))),
                     (''session_id'', arg_value objs (entry_get kw ''session_id'' (Plain PNone))),
                     (''seq'', arg_value objs (entry_get kw ''seq'' (Plain PNone))),
                     (''sender'', PStr sender),
                     (''receiver'', arg_value objs (entry_get kw ''receiver'' (Plain PNone))),
                     (''topic'', arg_value objs (entry_get kw ''topic'' (Plain PNone))),
                     (''content'', arg_value objs content),
                     (''confidence'', PFloat confidence),
                     (''provenance'', arg_value objs provenance_list),
                     (''constraints'', arg_value objs constraints_list),
                     (''safety'', PDict (safety_now st)),
                     (''refers_to'', arg_value objs (entry_get kw ''refers_to'' (Plain PNone))),
                     (''keywords'', PList (map PStr keywords_list)),
                     (''payload'', arg_value objs (entry_get kw ''payload'' (Plain PNone))),
                     (''_extras'', arg_value objs (entry_get kw ''_extras'' (Plain (PDict []))))]
          in Inr msg))"

definition make_message_sharing ::
  "pylib \<Rightarrow> env \<Rightarrow> string \<Rightarrow> string \<Rightarrow> call_ref parg \<Rightarrow> (string \<times> call_ref parg) list
     \<Rightarrow> shared_objects \<Rightarrow> pyerror + pydict" where
  \<comment> \<open>\<open>make_message\<close>: the assembled dict is validated, then returned\<close>
  "make_message_sharing L e type0 sender content kw objs =
     (case assemble_message_sharing L e type0 sender content kw objs of
        Inl exn \<Rightarrow> Inl exn
      | Inr msg \<Rightarrow>
          (case validate_vlp L msg of
             (True, err) \<Rightarrow> Inr msg
           | (False, err) \<Rightarrow>
               Inl (ValidationFailed (''VLP validation failed: ''
                      @ (case err of Some d \<Rightarrow> d | None \<Rightarrow> ''None'')))))"

subsection \<open>NDJSON\<close>

definition is_linebreak :: "char \<Rightarrow> bool" where
  \<comment> \<open>the line boundaries of \<open>str.splitlines\<close> among the code points 0 to 255\<close>
  "is_linebreak c = (of_char c \<in> {10, 11, 12, 13, 28, 29, 30, 133 :: nat})"

fun splitlines_from :: "string \<Rightarrow> string \<Rightarrow> string list" where
  \<comment> \<open>the lines of the rest of the text, \<open>cur\<close> being the line read so far; a carriage
      return followed by a line feed is one boundary, and a final boundary opens no line\<close>
  "splitlines_from cur [] = (if cur = [] then [] else [cur])"
| "splitlines_from cur [c] = (if is_linebreak c then [cur] else [cur @ [c]])"
| "splitlines_from cur (c # d # cs) =
     (if c = CHR 0x0D \<and> d = CHR 0x0A then cur # splitlines_from [] cs
      else if is_linebreak c then cur # splitlines_from [] (d # cs)
      else splitlines_from (cur @ [c]) (d # cs))"

definition splitlines :: "string \<Rightarrow> string list" where
  \<comment> \<open>\<open>s.splitlines()\<close>\<close>
  "splitlines s = splitlines_from [] s"

definition hex_digit :: "nat \<Rightarrow> char" where
  "hex_digit n = (if n < 10 then char_of (48 + n) else char_of (87 + n))"

definition json_escape_char :: "char \<Rightarrow> string" where
  \<comment> \<open>the escapes of \<open>json.dumps(..., ensure_ascii=False)\<close>: the quote, the backslash and
      the control characters below 0x20; every other character is written as it is\<close>
  "json_escape_char c =
     (let n = (of_char c :: nat)
      in if n = 34 then [CHR 0x5C, CHR 0x22]
         else if n = 92 then [CHR 0x5C, CHR 0x5C]
         else if n = 10 then [CHR 0x5C, CHR ''n'']
         else if n = 13 then [CHR 0x5C, CHR ''r'']
         else if n = 9 then [CHR 0x5C, CHR ''t'']
         else if n = 8 then [CHR 0x5C, CHR ''b'']
         else if n = 12 then [CHR 0x5C, CHR ''f'']
         else if n < 32 then [CHR 0x5C, CHR ''u'', CHR ''0'', CHR ''0'', hex_digit (n div 16), hex_digit (n mod 16)]
         else [c])"

definition json_str :: "string \<Rightarrow> string" where
  "json_str s = CHR 0x22 # concat (map json_escape_char s) @ [CHR 0x22]"

fun json_dumps :: "pylib \<Rightarrow> pyval \<Rightarrow> string" where
  \<comment> \<open>\<open>json.dumps(v, ensure_ascii=False)\<close> with the default separators; a finite float is
      printed by \<open>float.__repr__\<close>\<close>
  "json_dumps L PNone = ''null''"
| "json_dumps L (PBool b) = (if b then ''true'' else ''false'')"
| "json_dumps L (PInt i) = str_int i"
| "json_dumps L (PFloat (Fin x)) = repr_of L (PFloat (Fin x))"
| "json_dumps L (PFloat NaN) = ''NaN''"
| "json_dumps L (PFloat PosInf) = ''Infinity''"
| "json_dumps L (PFloat NegInf) = ''-Infinity''"
| "json_dumps L (PStr s) = json_str s"
| "json_dumps L (PList xs) = ''['' @ join '', '' (map (json_dumps L) xs) @ '']''"
| "json_dumps L (PDict kvs) =
     ''{'' @ join '', '' (map (\<lambda>(k, v). json_str k @ '': '' @ json_dumps L v) kvs) @ ''}''"

definition to_ndjson :: "pylib \<Rightarrow> pydict list \<Rightarrow> string" where
  \<comment> \<open>\<open>to_ndjson\<close>\<close>
  "to_ndjson L messages = join [CHR 0x0A] (map (\<lambda>m. json_dumps L (PDict m)) messages)"

fun from_ndjson_loop :: "pylib \<Rightarrow> string list \<Rightarrow> pyval list \<Rightarrow> pyerror + pyval list" where
  \<comment> \<open>the \<open>for\<close> loop of \<open>from_ndjson\<close> over the lines left, \<open>out\<close> being the list so far\<close>
  "from_ndjson_loop L [] out = Inr out"
| "from_ndjson_loop L (line # lines) out =
     (if strip line = [] then from_ndjson_loop L lines out
      else case json_loads L line of
             None \<Rightarrow> Inl JSONDecodeError
           | Some v \<Rightarrow> from_ndjson_loop L lines (out @ [v]))"

definition from_ndjson :: "pylib \<Rightarrow> string \<Rightarrow> pyerror + pyval list" where
  \<comment> \<open>\<open>from_ndjson\<close>; \<open>text or ""\<close> is \<open>text\<close> for a \<open>str\<close>\<close>
  "from_ndjson L text = from_ndjson_loop L (splitlines text) []"


section \<open>sessions.py: AgentSession\<close>

record AgentSession =
  agent_name :: string
  agent_number :: int
  session_id :: string
  started_at :: string
  seq :: int

definition generate_session_id :: "env \<Rightarrow> string \<Rightarrow> string" where
  \<comment> \<open>\<open>AgentSession._generate_session_id\<close>\<close>
  "generate_session_id e name =
     (let date = strftime_Y_m_d (today e);
          slug = take 12 (replace '' '' ''-'' (replace ''the '' '''' (lower name)));
          short_id = take 6 (uuid_hex e)
      in ''S-'' @ date @ ''-'' @ slug @ ''-'' @ short_id)"

definition AgentSession_init :: "env \<Rightarrow> string \<Rightarrow> int \<Rightarrow> AgentSession" where
  \<comment> \<open>\<open>AgentSession.__init__\<close>\<close>
  "AgentSession_init e name number =
     \<lparr>agent_name = name, agent_number = number,
      session_id = generate_session_id e name,
      started_at = now_full e, seq = 0\<rparr>"

definition next_seq :: "AgentSession \<Rightarrow> int \<times> AgentSession" where
  \<comment> \<open>\<open>AgentSession.next_seq\<close>: the body runs under the session's lock, as one step\<close>
  "next_seq s = (seq s + 1, s\<lparr>seq := seq s + 1\<rparr>)"

definition message_id :: "AgentSession \<Rightarrow> string \<Rightarrow> string \<times> AgentSession" where
  \<comment> \<open>\<open>AgentSession.message_id\<close>\<close>
  "message_id s prefix =
     (let (n, s') = next_seq s
      in (prefix @ ''-'' @ last_n 6 (session_id s) @ ''-'' @ fmt_04d n, s'))"

fun next_seq_calls :: "nat \<Rightarrow> AgentSession \<Rightarrow> int list \<times> AgentSession" where
  \<comment> \<open>the values returned by \<open>N\<close> calls of \<open>next_seq\<close> in a row, and the session after them\<close>
  "next_seq_calls 0 s = ([], s)"
| "next_seq_calls (Suc k) s =
     (let (v, s') = next_seq s; (vs, s'') = next_seq_calls k s' in (v # vs, s''))"

section \<open>sessions.py: AgentSessionRegistry\<close>

text \<open>
  Session objects are shared between the registry and the callers that hold them, and
  \<open>next_seq\<close> mutates them in place. The model keeps the objects in a store; a session
  handle is an address of the store, and the registry's dict \<open>_sessions\<close> maps a session
  id to such an address.
\<close>

type_synonym ref = nat

record world =
  heap :: "ref \<Rightarrow> AgentSession"
  next_ref :: ref
  sessions :: "string \<rightharpoonup> ref"

definition start_session :: "env \<Rightarrow> world \<Rightarrow> string \<Rightarrow> int \<Rightarrow> ref \<times> world" where
  \<comment> \<open>\<open>AgentSessionRegistry.start_session\<close>\<close>
  "start_session e w name number =
     (let session = AgentSession_init e name number;
          r = next_ref w
      in (r, w\<lparr>heap := (heap w)(r := session),
               next_ref := Suc r,
               sessions := (sessions w)(session_id session \<mapsto> r)\<rparr>))"

definition get_session :: "world \<Rightarrow> string \<Rightarrow> ref option" where
  \<comment> \<open>\<open>AgentSessionRegistry.get_session\<close>\<close>
  "get_session w sid = sessions w sid"

definition end_session ::
  "pylib \<Rightarrow> env \<Rightarrow> world \<Rightarrow> ref \<Rightarrow> string \<Rightarrow> (pyerror + pydict) \<times> world" where
  \<comment> \<open>\<open>AgentSessionRegistry.end_session\<close>: the keyword arguments are evaluated in the
      order written, so \<open>message_id\<close> runs before \<open>next_seq\<close>, and \<open>session.seq\<close> is read
      after both. An exception of \<open>make_message\<close> leaves the registry as it is.\<close>
  "end_session L e w r summary =
     (let s0 = heap w r;
          content = py_or (PStr summary) (PStr (''Session ended for '' @ agent_name s0));
          (mid, s1) = message_id s0 ''CTX'';
          (n, s2) = next_seq s1;
          w' = w\<lparr>heap := (heap w)(r := s2)\<rparr>;
          kw = [(''session_id'', PStr (session_id s0)),
                (''id'', PStr mid),
                (''seq'', PInt n),
                (''confidence'', PFloat (Fin 1)),
                (''provenance'', PList [PStr ''agent_session'',
                                       PStr (''agent_'' @ str_int (agent_number s0))]),
                (''payload'', PDict [(''agent_number'', PInt (agent_number s0)),
                                    (''started_at'', PStr (started_at s0)),
                                    (''ended_at'', PStr (now_full e)),
                                    (''total_messages'', PInt (seq s2))])]
      in case make_message L e ''session_context'' (agent_name s0) content kw of
           Inl exn \<Rightarrow> (Inl exn, w')
         | Inr msg \<Rightarrow> (Inr msg, w'\<lparr>sessions := dict_pop (sessions w') (session_id s2)\<rparr>))"

definition default_confidence :: pyval where
  \<comment> \<open>the default \<open>confidence: float = 0.9\<close> of \<open>create_claim\<close>\<close>
  "default_confidence = PFloat (Fin float_0_9)"

definition create_claim ::
  "pylib \<Rightarrow> env \<Rightarrow> world \<Rightarrow> ref \<Rightarrow> string \<Rightarrow> pyval \<Rightarrow> pydict \<Rightarrow> (pyerror + pydict) \<times> world" where
  \<comment> \<open>\<open>AgentSessionRegistry.create_claim(session, content, confidence, **kw)\<close>; \<open>kw\<close> is
      the keywords of the call other than the parameters, in the order written. A keyword
      that names a parameter already given is a \<open>TypeError\<close> before the body runs. Inside,
      the keywords of the call of \<open>make_message\<close> are evaluated first; then a key of \<open>kw\<close>
      that repeats one of them is a \<open>TypeError\<close>, the first such key of \<open>kw\<close> being named,
      and after that a key \<open>type_\<close>, which repeats the positional argument.\<close>
  "create_claim L e w r content confidence kw =
     (case filter (\<lambda>k. k \<in> set [''self'', ''session'', ''content'', ''confidence'']) (map fst kw) of
        k # ks \<Rightarrow> (Inl (DuplicateKeyword k), w)
      | [] \<Rightarrow>
         (let s0 = heap w r;
              (mid, s1) = message_id s0 ''CLM'';
              (n, s2) = next_seq s1;
              w' = w\<lparr>heap := (heap w)(r := s2)\<rparr>
          in case filter (\<lambda>k. k \<in> set [''sender'', ''session_id'', ''id'', ''seq'']) (map fst kw) of
               k # ks \<Rightarrow> (Inl (DuplicateKeyword k), w')
             | [] \<Rightarrow>
                if ''type_'' \<in> fst ` set kw then (Inl (DuplicateKeyword ''type_''), w')
                else (make_message L e ''claim'' (agent_name s0) (PStr content)
                        ([(''session_id'', PStr (session_id s0)),
                          (''id'', PStr mid),
                          (''seq'', PInt n),
                          (''confidence'', confidence)] @ kw), w')))"

section \<open>The structural check\<close>

text \<open>
  Modelled from the spec: the schema document \<open>vlp-1.1.json\<close>, which
  \<open>jsonschema.validate\<close> checks a message against, is not among the sources. The spec
  describes the structural check as required-field presence, field types and
  enumerated-value membership, and its data model gives the fields: \<open>id\<close>, \<open>timestamp\<close>
  and \<open>sender\<close> are strings, \<open>protocol\<close> is the fixed literal, \<open>type\<close> is one of seven
  tags, \<open>confidence\<close> is required and numeric, \<open>provenance\<close>, \<open>constraints\<close> and
  \<open>keywords\<close> are sequences of strings, \<open>safety\<close> is a structured value; the fields the
  data model calls optional are not constrained. The theorems below hold for every
  structural check; this one instantiates them.
\<close>

definition message_types :: "string list" where
  "message_types = [''claim'', ''evidence'', ''query'', ''response'', ''correction'',
                    ''notice'', ''session_context'']"

definition is_string :: "pyval \<Rightarrow> bool" where
  "is_string v = (case v of PStr s \<Rightarrow> True | _ \<Rightarrow> False)"

definition is_number :: "pyval \<Rightarrow> bool" where
  "is_number v = (case v of PInt i \<Rightarrow> True | PFloat x \<Rightarrow> True | _ \<Rightarrow> False)"

definition is_string_list :: "pyval \<Rightarrow> bool" where
  "is_string_list v = (case v of PList xs \<Rightarrow> list_all is_string xs | _ \<Rightarrow> False)"

definition is_object :: "pyval \<Rightarrow> bool" where
  "is_object v = (case v of PDict d \<Rightarrow> True | _ \<Rightarrow> False)"

definition field_types :: "(string \<times> (pyval \<Rightarrow> bool)) list" where
  "field_types =
     [(''id'', is_string), (''protocol'', \<lambda>v. v = PStr ''VLP/1.1''),
      (''type'', \<lambda>v. v \<in> PStr ` set message_types), (''timestamp'', is_string),
      (''sender'', is_string), (''confidence'', is_number),
      (''provenance'', is_string_list), (''constraints'', is_string_list),
      (''safety'', is_object), (''keywords'', is_string_list)]"

definition vlp_1_1_spec :: "pydict \<Rightarrow> string option" where
  "vlp_1_1_spec msg =
     (case filter (\<lambda>k. map_of msg k = None)
             [''id'', ''protocol'', ''type'', ''timestamp'', ''sender'', ''content'', ''confidence''] of
        k # ks \<Rightarrow> Some (k @ '' is a required property'')
      | [] \<Rightarrow>
         (case filter (\<lambda>(k, ok). case map_of msg k of None \<Rightarrow> False | Some v \<Rightarrow> \<not> ok v)
                 field_types of
            (k, ok) # ks \<Rightarrow> Some (k @ '' is not of the required type'')
          | [] \<Rightarrow> None))"

definition spec_lib :: pylib where
  \<comment> \<open>the structural check of the spec; the float and text conversions of values that
      the examples below do not contain are left empty\<close>
  "spec_lib = \<lparr>schema_validate = vlp_1_1_spec, float_of_str = (\<lambda>s. None),
               repr_of = (\<lambda>v. []), json_loads = (\<lambda>s. None)\<rparr>"

definition lenient_lib :: pylib where
  \<comment> \<open>a structural check that accepts every message\<close>
  "lenient_lib = spec_lib\<lparr>schema_validate := (\<lambda>msg. None)\<rparr>"

definition no_objects :: shared_objects where
  \<comment> \<open>for a call that passes neither object: an empty dict and an empty list\<close>
  "no_objects = \<lparr>safety_entries = [], issues_items = []\<rparr>"

definition example_env :: env where
  "example_env = \<lparr>today = \<lparr>year = 2025, month = 1, day = 4\<rparr>,
                  now_full = ''2025-01-04T10:00:00.250000Z'',
                  now_second = ''2025-01-04T10:00:00Z'',
                  uuid_hex = ''3f2a1b9c0d4e5f60718293a4b5c6d7e8''\<rparr>"

definition empty_world :: world where
  \<comment> \<open>a registry after \<open>AgentSessionRegistry()\<close>: no session registered\<close>
  "empty_world = \<lparr>heap = (\<lambda>r. AgentSession_init example_env [] 0), next_ref = 0,
                  sessions = Map.empty\<rparr>"

definition escalated_example :: pydict where
  \<comment> \<open>what \<open>make_message("claim", "TestAgent", "High confidence claim", confidence=1.0,
      safety={"level": "safe"})\<close> returns under the structural check of the spec\<close>
  "escalated_example =
     [(''id'', PStr ''MSG3f2a1b9c''), (''protocol'', PStr ''VLP/1.1''),
      (''type'', PStr ''claim''), (''timestamp'', PStr ''2025-01-04T10:00:00Z''),
      (''session_id'', PNone), (''seq'', PNone), (''sender'', PStr ''TestAgent''),
      (''receiver'', PNone), (''topic'', PNone), (''content'', PStr ''High confidence claim''),
      (''confidence'', PFloat (Fin 1)), (''provenance'', PList []), (''constraints'', PList []),
      (''safety'', PDict [(''level'', PStr ''review''),
         (''issues'', PList [PDict [(''code'', PStr ''missing_provenance_high_confidence''),
                                    (''detail'', PStr ''confidence >= 0.9 without provenance'')]])]),
      (''refers_to'', PNone), (''keywords'', PList []), (''payload'', PNone),
      (''_extras'', PDict [])]"

definition observer_session :: AgentSession where
  \<comment> \<open>the session of \<open>start_session("The Observer", 4)\<close> once two \<open>create_claim\<close> calls
      have taken four sequence numbers\<close>
  "observer_session =
     \<lparr>agent_name = ''The Observer'', agent_number = 4,
      session_id = ''S-2025-01-04-observer-3f2a1b'',
      started_at = ''2025-01-04T10:00:00.250000Z'', seq = 4\<rparr>"

definition registered_world :: world where
  \<comment> \<open>a registry that holds that session, at address 0\<close>
  "registered_world =
     \<lparr>heap = (\<lambda>r. observer_session), next_ref = 1,
      sessions = [''S-2025-01-04-observer-3f2a1b'' \<mapsto> 0]\<rparr>"

definition unregistered_world :: world where
  \<comment> \<open>the same session after \<open>end_session\<close>: six numbers taken, no longer registered\<close>
  "unregistered_world =
     \<lparr>heap = (\<lambda>r. observer_session\<lparr>seq := 6\<rparr>), next_ref = 1, sessions = Map.empty\<rparr>"

definition response_example :: pydict where
  \<comment> \<open>a \<open>response\<close> without \<open>refers_to\<close>, confidence 1.0, no provenance, level \<open>safe\<close>\<close>
  "response_example =
     [(''id'', PStr ''MSG3f2a1b9c''), (''protocol'', PStr ''VLP/1.1''),
      (''type'', PStr ''response''), (''timestamp'', PStr ''2025-01-04T10:00:00Z''),
      (''session_id'', PNone), (''seq'', PNone), (''sender'', PStr ''TestAgent''),
      (''receiver'', PNone), (''topic'', PNone), (''content'', PStr ''An answer''),
      (''confidence'', PFloat (Fin 1)), (''provenance'', PList []), (''constraints'', PList []),
      (''safety'', PDict [(''level'', PStr ''safe''), (''issues'', PList [])]),
      (''refers_to'', PNone), (''keywords'', PList []), (''payload'', PNone),
      (''_extras'', PDict [])]"

definition unearned_example :: pydict where
  \<comment> \<open>a hand-written \<open>claim\<close>: confidence 1.0, no provenance, level \<open>safe\<close>\<close>
  "unearned_example =
     [(''id'', PStr ''MSG3f2a1b9c''), (''protocol'', PStr ''VLP/1.1''),
      (''type'', PStr ''claim''), (''timestamp'', PStr ''2025-01-04T10:00:00Z''),
      (''sender'', PStr ''TestAgent''), (''content'', PStr ''Trust me''),
      (''confidence'', PFloat (Fin 1)),
      (''safety'', PDict [(''level'', PStr ''safe''), (''issues'', PList [])])]"

definition evidence_unearned_example :: pydict where
  \<comment> \<open>a hand-written \<open>evidence\<close> with \<open>refers_to\<close>: confidence 1.0, no provenance, level
      \<open>safe\<close>\<close>
  "evidence_unearned_example =
     [(''id'', PStr ''MSG3f2a1b9c''), (''protocol'', PStr ''VLP/1.1''),
      (''type'', PStr ''evidence''), (''timestamp'', PStr ''2025-01-04T10:00:00Z''),
      (''sender'', PStr ''TestAgent''), (''content'', PStr ''Trust me''),
      (''confidence'', PFloat (Fin 1)), (''provenance'', PList []),
      (''safety'', PDict [(''level'', PStr ''safe''), (''issues'', PList [])]),
      (''refers_to'', PStr ''MSG00000001'')]"

definition null_provenance_example :: pydict where
  \<comment> \<open>a hand-written \<open>claim\<close> whose provenance is \<open>null\<close>: confidence 1.0, level \<open>safe\<close>\<close>
  "null_provenance_example =
     [(''id'', PStr ''MSG3f2a1b9c''), (''protocol'', PStr ''VLP/1.1''),
      (''type'', PStr ''claim''), (''timestamp'', PStr ''2025-01-04T10:00:00Z''),
      (''sender'', PStr ''TestAgent''), (''content'', PStr ''Trust me''),
      (''confidence'', PFloat (Fin 1)), (''provenance'', PNone),
      (''safety'', PDict [(''level'', PStr ''safe''), (''issues'', PList [])])]"

definition shared_list_example :: pydict where
  \<comment> \<open>what \<open>make_message("evidence", "TestAgent", "Evidence", confidence=1.0,
      refers_to="MSG00000001", provenance=x, safety={"level": "safe", "issues": x})\<close>
      returns for one empty list \<open>x\<close>, under a structural check that accepts it\<close>
  "shared_list_example =
     [(''id'', PStr ''MSG3f2a1b9c''), (''protocol'', PStr ''VLP/1.1''),
      (''type'', PStr ''evidence''), (''timestamp'', PStr ''2025-01-04T10:00:00Z''),
      (''session_id'', PNone), (''seq'', PNone), (''sender'', PStr ''TestAgent''),
      (''receiver'', PNone), (''topic'', PNone), (''content'', PStr ''Evidence''),
      (''confidence'', PFloat (Fin 1)),
      (''provenance'', PList [PDict [(''code'', PStr ''missing_provenance_high_confidence''),
                                    (''detail'', PStr ''confidence >= 0.9 without provenance'')]]),
      (''constraints'', PList []),
      (''safety'', PDict [(''level'', PStr ''review''),
         (''issues'', PList [PDict [(''code'', PStr ''missing_provenance_high_confidence''),
                                    (''detail'', PStr ''confidence >= 0.9 without provenance'')]])]),
      (''refers_to'', PStr ''MSG00000001''), (''keywords'', PList []), (''payload'', PNone),
      (''_extras'', PDict [])]"

definition nel_example :: pydict where
  \<comment> \<open>what \<open>make_message("claim", "Agent1", content, confidence=0.5)\<close> returns when
      \<open>content\<close> is \<open>line one\<close>, the character NEXT LINE (U+0085), \<open>line two\<close>\<close>
  "nel_example =
     [(''id'', PStr ''MSG3f2a1b9c''), (''protocol'', PStr ''VLP/1.1''),
      (''type'', PStr ''claim''), (''timestamp'', PStr ''2025-01-04T10:00:00Z''),
      (''session_id'', PNone), (''seq'', PNone), (''sender'', PStr ''Agent1''),
      (''receiver'', PNone), (''topic'', PNone),
      (''content'', PStr (''line one'' @ [CHR 0x85] @ ''line two'')),
      (''confidence'', PFloat (Fin (1 / 2))), (''provenance'', PList []),
      (''constraints'', PList []),
      (''safety'', PDict [(''level'', PStr ''safe''), (''issues'', PList [])]),
      (''refers_to'', PNone), (''keywords'', PList []), (''payload'', PNone),
      (''_extras'', PDict [])]"

section \<open>Notions of the specification\<close>

text \<open>
  The words of the specification that the theorems compare the code with.
  \<^item> Keywords: lowercase and trim each entry, drop the empty ones, keep the first
    occurrence of each, in order.
  \<^item> The confidence rule: a message breaks it when its confidence is at least 0.9, its
    provenance is empty and its \<open>safety.level\<close> is not \<open>review\<close>. The provenance is empty
    when the field holds no entry: it is absent, it is not a list (\<open>null\<close> for one), or it
    is the empty list. The level is read as the validator reads it, as text; for a level
    that is a string, this is equality with \<open>"review"\<close>.
  \<^item> The semantic rules that the validator evaluates before the confidence rule:
    lowercase type, the evidence rule (with empty provenance an \<open>evidence\<close> message never
    passes it), and the rule for \<open>response\<close> and \<open>correction\<close>; and the description that
    the first of them to fail gives, for a message whose confidence is a number.
\<close>

primrec first_occurrences :: "'a list \<Rightarrow> 'a list" where
  "first_occurrences [] = []"
| "first_occurrences (x # xs) = x # filter (\<lambda>y. y \<noteq> x) (first_occurrences xs)"

definition strings_of :: "pyval list \<Rightarrow> string list" where
  \<comment> \<open>the entries that are strings\<close>
  "strings_of ks = concat (map (\<lambda>k. case k of PStr s \<Rightarrow> [s] | _ \<Rightarrow> []) ks)"

definition spec_normalize_keywords :: "string list \<Rightarrow> string list" where
  "spec_normalize_keywords ss =
     first_occurrences (filter (\<lambda>s. s \<noteq> []) (map (\<lambda>s. strip (lower s)) ss))"

definition safety_level_is_review :: "pylib \<Rightarrow> pydict \<Rightarrow> bool" where
  "safety_level_is_review L msg =
     (case map_of msg ''safety'' of
        Some (PDict safety) \<Rightarrow>
          (case map_of safety ''level'' of
             Some lvl \<Rightarrow> truthy lvl \<and> py_str L lvl = ''review''
           | None \<Rightarrow> False)
      | _ \<Rightarrow> False)"

definition provenance_is_empty :: "pydict \<Rightarrow> bool" where
  "provenance_is_empty msg =
     (case dict_get msg ''provenance'' (PList []) of PList xs \<Rightarrow> xs = [] | _ \<Rightarrow> True)"

definition unearned_confidence :: "pylib \<Rightarrow> pydict \<Rightarrow> bool" where
  "unearned_confidence L msg =
     ((case py_float L (dict_get msg ''confidence'' PNone) of
         Some c \<Rightarrow> float_ge c float_0_9
       | None \<Rightarrow> False)
      \<and> provenance_is_empty msg
      \<and> \<not> safety_level_is_review L msg)"

definition earlier_rules_pass :: "pylib \<Rightarrow> pydict \<Rightarrow> bool" where
  "earlier_rules_pass L msg =
     (let t = strip (py_str L (py_or (dict_get msg ''type'' PNone) (PStr '''')))
      in t = lower t \<and> t \<noteq> ''evidence''
         \<and> (if t = ''response'' \<or> t = ''correction''
            then truthy (dict_get msg ''refers_to'' PNone) else True))"

definition earlier_rule_description :: "pylib \<Rightarrow> pydict \<Rightarrow> string" where
  "earlier_rule_description L msg =
     (let t = strip (py_str L (py_or (dict_get msg ''type'' PNone) (PStr '''')))
      in if t \<noteq> lower t then ''type must be lowercase''
         else if t = ''evidence'' \<and> \<not> truthy (dict_get msg ''refers_to'' PNone)
           then ''evidence messages must include refers_to''
         else if t = ''evidence'' then ''evidence messages must include non-empty provenance''
         else t @ '' messages must include refers_to'')"

section \<open>Facts about dicts\<close>

lemma map_of_replace_value:
  "map_of (map (\<lambda>(k', v'). if k' = k then (k', v) else (k', v')) d) x
   = (if x = k \<and> k \<in> fst ` set d then Some v else map_of d x)"
proof (induction d)
  case Nil
  show ?case by simp
next
  case (Cons p d)
  obtain k0 v0 where p: "p = (k0, v0)" by (cases p)
  show ?case unfolding p using Cons.IH by (cases "k0 = k"; cases "x = k") simp_all
qed

lemma map_of_dict_set: "map_of (dict_set d k v) = (map_of d)(k \<mapsto> v)"
proof (cases "k \<in> fst ` set d")
  case True
  then show ?thesis
    by (auto simp: dict_set_def fun_eq_iff map_of_replace_value)
next
  case False
  then have "map_of d k = None" by (simp add: map_of_eq_None_iff)
  with False show ?thesis
    by (auto simp: dict_set_def fun_eq_iff map_add_def split: option.splits)
qed

lemma dict_get_dict_set:
  "dict_get (dict_set d k v) k' dflt = (if k' = k then v else dict_get d k' dflt)"
  by (simp add: dict_get_def map_of_dict_set)

lemma make_message_Inr:
  "make_message L e type0 sender content kw = Inr msg \<Longrightarrow>
   assemble_message L e type0 sender content kw = Inr msg
   \<and> validate_vlp L msg = (True, snd (validate_vlp L msg))"
  by (auto simp: make_message_def split: sum.splits prod.splits bool.splits)

lemma assemble_message_Inr:
  assumes "assemble_message L e type0 sender content kw = Inr msg"
  shows "\<exists>c. py_float L (dict_get kw ''confidence'' (PFloat (Fin 1))) = Some c
    \<and> msg = [(''id'', py_or (dict_get kw ''id'' PNone) (PStr (new_id e ''MSG''))),
             (''protocol'', PStr ''VLP/1.1''),
             (''type'', PStr (lower (strip type0))),
             (''timestamp'', py_or (dict_get kw ''timestamp'' PNone) (PStr (now_iso e))),
             (''session_id'', dict_get kw ''session_id'' PNone),
             (''seq'', dict_get kw ''seq'' PNone),
             (''sender'', PStr sender),
             (''receiver'', dict_get kw ''receiver'' PNone),
             (''topic'', dict_get kw ''topic'' PNone),
             (''content'', content),
             (''confidence'', PFloat c),
             (''provenance'', PList (list_or_as_list (dict_get kw ''provenance'' (PList [])))),
             (''constraints'', PList (list_or_as_list (dict_get kw ''constraints'' (PList [])))),
             (''safety'', PDict (escalate L c (list_or_as_list (dict_get kw ''provenance'' (PList [])))
                  (normalize_safety (dict_get kw ''safety'' (PDict default_safety))))),
             (''refers_to'', dict_get kw ''refers_to'' PNone),
             (''keywords'', PList (map PStr (normalize_keywords
                  (list_or_as_list (dict_get kw ''keywords'' (PList [])))))),
             (''payload'', dict_get kw ''payload'' PNone),
             (''_extras'', dict_get kw ''_extras'' (PDict []))]"
  using assms by (auto simp: assemble_message_def Let_def split: option.splits)

lemma strip_evidence: "strip ''evidence'' = ''evidence''"
  by code_simp

lemma lower_evidence: "lower ''evidence'' = ''evidence''"
  by code_simp

lemma strip_claim: "strip ''claim'' = ''claim''"
  by code_simp

lemma lower_claim: "lower ''claim'' = ''claim''"
  by code_simp

lemma strip_session_context: "strip ''session_context'' = ''session_context''"
  by code_simp

lemma lower_session_context: "lower ''session_context'' = ''session_context''"
  by code_simp

lemma escalate_default:
  "escalate L (Fin float_0_9) [] (normalize_safety (PDict default_safety))
   = [(''level'', PStr ''review''), (''issues'', PList [escalation_issue])]"
  by (simp add: escalate_def normalize_safety_def default_safety_def dict_get_def dict_set_def Let_def)

lemma no_escalation_with_provenance:
  "escalate L c (x # xs) (normalize_safety (PDict default_safety)) = default_safety"
  by (simp add: escalate_def normalize_safety_def default_safety_def dict_get_def dict_set_def Let_def)

section \<open>Sequence numbers\<close>

lemma next_seq_calls_from:
  "next_seq_calls N s = (map (\<lambda>i. seq s + int i) [1..<Suc N], s\<lparr>seq := seq s + int N\<rparr>)"
proof (induction N arbitrary: s)
  case 0
  show ?case by simp
next
  case (Suc N)
  have cons: "[Suc 0..<Suc (Suc N)] = Suc 0 # map Suc [Suc 0..<Suc N]"
    unfolding map_Suc_upt by (rule upt_conv_Cons) simp
  have step: "map (\<lambda>i. seq s + int i) [Suc 0..<Suc (Suc N)]
      = (seq s + 1) # map (\<lambda>i. seq s + 1 + int i) [Suc 0..<Suc N]"
    unfolding cons by (simp add: o_def algebra_simps del: upt_Suc)
  show ?case
    by (simp add: Suc.IH next_seq_def step del: upt_Suc)
qed

lemma set_one_upto: "set (map int [1..<Suc N]) = {1..int N}"
proof -
  have "set (map int [1..<Suc N]) = int ` {1..N}"
    by (simp add: atLeastLessThanSuc_atLeastAtMost del: upt_Suc)
  also have "\<dots> = {1..int N}"
    using image_int_atLeastAtMost [of 1 N] by simp
  finally show ?thesis .
qed

text \<open>
  Claim C6. On a fresh session the first call of \<open>next_seq\<close> returns 1; on any session a
  call returns one more than the call before it; and \<open>N\<close> calls in a row on a fresh
  session return exactly the values 1 to \<open>N\<close>, in strictly increasing order, each once.
\<close>

theorem next_seq_counts_from_one:
  "fst (next_seq (AgentSession_init e name number)) = 1
   \<and> fst (next_seq (snd (next_seq s))) = fst (next_seq s) + 1
   \<and> fst (next_seq_calls N (AgentSession_init e name number)) = map int [1..<Suc N]
   \<and> set (fst (next_seq_calls N (AgentSession_init e name number))) = {1..int N}
   \<and> sorted_wrt (<) (fst (next_seq_calls N (AgentSession_init e name number)))
   \<and> distinct (fst (next_seq_calls N (AgentSession_init e name number)))"
proof -
  have vs: "fst (next_seq_calls N (AgentSession_init e name number)) = map int [1..<Suc N]"
    by (simp add: next_seq_calls_from AgentSession_init_def del: upt_Suc)
  have first: "fst (next_seq (AgentSession_init e name number)) = 1"
    by (simp add: next_seq_def AgentSession_init_def)
  have step: "fst (next_seq (snd (next_seq s))) = fst (next_seq s) + 1"
    by (simp add: next_seq_def)
  have sorted: "sorted_wrt (<) (map int [1..<Suc N])"
    by (simp add: sorted_wrt_map del: upt_Suc)
  have dist: "distinct (map int [1..<Suc N])"
    by (simp add: distinct_map del: upt_Suc)
  show ?thesis
    unfolding vs using first step set_one_upto sorted dist by blast
qed

theorem next_seq_counts_from_one_witness:
  "fst (next_seq_calls 3 (AgentSession_init example_env ''Test'' 1)) = [1, 2, 3]"
proof -
  have "fst (next_seq_calls 3 (AgentSession_init example_env ''Test'' 1)) = map int [1..<Suc 3]"
    using next_seq_counts_from_one [of example_env "''Test''" 1 "AgentSession_init example_env ''Test'' 1" 3] by blast
  also have "map int [1..<Suc 3] = [1, 2, 3]"
    by (simp add: upt_rec)
  finally show ?thesis .
qed

section \<open>Auto-escalation\<close>

text \<open>
  Claim C1. Whenever \<open>make_message\<close> returns a message, and the confidence it was given
  is at least 0.9, the provenance it was given normalizes to the empty sequence and the
  level of the (completed) safety argument is not \<open>review\<close>, the returned message has
  \<open>safety.level == "review"\<close>, and \<open>safety.issues\<close> holds the entry with code
  \<open>missing_provenance_high_confidence\<close> and detail \<open>confidence >= 0.9 without provenance\<close>.
\<close>

theorem make_message_escalates:
  assumes built: "make_message L e type0 sender content kw = Inr msg"
    and conf: "py_float L (dict_get kw ''confidence'' (PFloat (Fin 1))) = Some c"
    and high: "float_ge c float_0_9"
    and prov: "list_or_as_list (dict_get kw ''provenance'' (PList [])) = []"
    and level: "py_str L (dict_get (normalize_safety (dict_get kw ''safety'' (PDict default_safety)))
                  ''level'' PNone) \<noteq> ''review''"
  shows "\<exists>safety issues.
           map_of msg ''safety'' = Some (PDict safety)
         \<and> map_of safety ''level'' = Some (PStr ''review'')
         \<and> map_of safety ''issues'' = Some (PList issues)
         \<and> PDict [(''code'', PStr ''missing_provenance_high_confidence''),
                  (''detail'', PStr ''confidence >= 0.9 without provenance'')] \<in> set issues"
proof -
  define S where "S = normalize_safety (dict_get kw ''safety'' (PDict default_safety))"
  define S' where "S' = escalate L c [] S"
  from built have asm: "assemble_message L e type0 sender content kw = Inr msg"
    by (simp add: make_message_Inr)
  have safety: "map_of msg ''safety'' = Some (PDict S')"
    using asm conf prov by (auto simp: assemble_message_def Let_def S'_def S_def)
  have S': "S' = dict_set (dict_set S ''level'' (PStr ''review'')) ''issues''
               (PList (as_list (dict_get (dict_set S ''level'' (PStr ''review'')) ''issues'' PNone)
                       @ [escalation_issue]))"
    using high level by (simp add: S'_def escalate_def S_def Let_def)
  have "map_of S' ''level'' = Some (PStr ''review'')"
    by (simp add: S' map_of_dict_set)
  moreover have "map_of S' ''issues''
      = Some (PList (as_list (dict_get (dict_set S ''level'' (PStr ''review'')) ''issues'' PNone)
                       @ [escalation_issue]))"
    by (simp add: S' map_of_dict_set)
  ultimately show ?thesis
    using safety by (simp add: escalation_issue_def)
qed

lemma escalated_example_built:
  "make_message spec_lib example_env ''claim'' ''TestAgent'' (PStr ''High confidence claim'')
     [(''confidence'', PFloat (Fin 1)), (''safety'', PDict [(''level'', PStr ''safe'')])]
   = Inr escalated_example"
  by code_simp

theorem make_message_escalates_witness:
  "make_message spec_lib example_env ''claim'' ''TestAgent'' (PStr ''High confidence claim'')
     [(''confidence'', PFloat (Fin 1)), (''safety'', PDict [(''level'', PStr ''safe'')])]
   = Inr escalated_example
   \<and> (\<exists>safety issues.
           map_of escalated_example ''safety'' = Some (PDict safety)
         \<and> map_of safety ''level'' = Some (PStr ''review'')
         \<and> map_of safety ''issues'' = Some (PList issues)
         \<and> PDict [(''code'', PStr ''missing_provenance_high_confidence''),
                  (''detail'', PStr ''confidence >= 0.9 without provenance'')] \<in> set issues)"
proof -
  have conf: "py_float spec_lib (dict_get [(''confidence'', PFloat (Fin 1)),
                 (''safety'', PDict [(''level'', PStr ''safe'')])] ''confidence'' (PFloat (Fin 1)))
              = Some (Fin 1)"
    by (simp add: dict_get_def)
  have high: "float_ge (Fin 1) float_0_9"
    by (simp add: float_0_9_def)
  have prov: "list_or_as_list (dict_get [(''confidence'', PFloat (Fin 1)),
                 (''safety'', PDict [(''level'', PStr ''safe'')])] ''provenance'' (PList [])) = []"
    by (simp add: dict_get_def list_or_as_list_def)
  have level: "py_str spec_lib (dict_get (normalize_safety (dict_get [(''confidence'', PFloat (Fin 1)),
                 (''safety'', PDict [(''level'', PStr ''safe'')])] ''safety'' (PDict default_safety)))
                  ''level'' PNone) \<noteq> ''review''"
    by code_simp
  show ?thesis
    using make_message_escalates [OF escalated_example_built conf high prov level]
      escalated_example_built by simp
qed

section \<open>Calls that share objects\<close>

text \<open>
  On a call none of whose arguments is or holds one of the two objects, the general
  definitions give what \<open>assemble_message\<close> and \<open>make_message\<close> give. An argument that is
  not one of the two objects itself keeps its truth value, and stays the empty list if it
  is one, whatever the statements of \<open>make_message\<close> do to the objects.
\<close>

lemma arg_value_Plain: "arg_value objs (Plain v) = v"
  by (simp add: arg_value_def)

lemma fst_plain_entries: "fst ` set (plain_entries d) = fst ` set d"
  by (force simp: plain_entries_def)

lemma map_of_plain_entries: "map_of (plain_entries d) k = map_option Plain (map_of d k)"
  by (induct d) (auto simp: plain_entries_def)

lemma entry_get_plain: "entry_get (plain_entries kw) k (Plain d) = Plain (dict_get kw k d)"
  by (simp add: entry_get_def dict_get_def map_of_plain_entries split: option.splits)

lemma entry_set_plain: "entry_set (plain_entries d) k (Plain v) = plain_entries (dict_set d k v)"
  by (auto simp: entry_set_def dict_set_def fst_plain_entries) (auto simp: plain_entries_def)

lemma safety_now_own_plain: "safety_now (objs, Own (plain_entries d)) = d"
  by (induct d) (auto simp: safety_now_def plain_entries_def arg_value_Plain)

lemma safety_set_own_plain:
  "safety_set k v (objs, Own (plain_entries d)) = (objs, Own (plain_entries (dict_set d k v)))"
  by (simp add: safety_set_def entry_set_plain)

lemma complete_safety_own_plain:
  "complete_safety (objs, Own (plain_entries d))
   = (objs, Own (plain_entries (normalize_safety (PDict d))))"
  by (simp add: complete_safety_def normalize_safety_def Let_def safety_now_own_plain
        safety_set_own_plain)

lemma normalize_safety_issues: "\<exists>xs. map_of (normalize_safety v) ''issues'' = Some (PList xs)"
proof -
  define S where "S = (case v of PDict d \<Rightarrow> d | _ \<Rightarrow> default_safety)"
  define S1 where "S1 = (if ''issues'' \<notin> fst ` set S
                       \<or> (case dict_get S ''issues'' PNone of PList xs \<Rightarrow> False | _ \<Rightarrow> True)
                    then dict_set S ''issues'' (PList []) else S)"
  have S1: "\<exists>xs. map_of S1 ''issues'' = Some (PList xs)"
  proof (cases "''issues'' \<notin> fst ` set S
                       \<or> (case dict_get S ''issues'' PNone of PList xs \<Rightarrow> False | _ \<Rightarrow> True)")
    case True
    then show ?thesis by (simp add: S1_def map_of_dict_set)
  next
    case False
    then obtain w where w: "map_of S ''issues'' = Some w"
      by (cases "map_of S ''issues''") (auto simp: map_of_eq_None_iff)
    with False show ?thesis
      by (cases w) (auto simp: S1_def dict_get_def)
  qed
  have "normalize_safety v = (if ''level'' \<notin> fst ` set S1
                    then dict_set S1 ''level'' (PStr ''safe'') else S1)"
    by (simp add: normalize_safety_def S1_def S_def Let_def)
  with S1 show ?thesis by (auto simp: map_of_dict_set)
qed

lemma issues_append_own_plain:
  assumes "map_of d ''issues'' = Some (PList xs)"
  shows "issues_append v (objs, Own (plain_entries d))
         = (objs, Own (plain_entries (dict_set d ''issues'' (PList (xs @ [v])))))"
  using assms by (simp add: issues_append_def map_of_plain_entries entry_set_plain)

lemma escalate_in_place_own_plain:
  assumes issues: "map_of d ''issues'' = Some (PList xs)"
    and prov: "arg_value objs pl = PList pvs"
  shows "escalate_in_place L c pl (objs, Own (plain_entries d))
         = (objs, Own (plain_entries (escalate L c pvs d)))"
proof -
  have "map_of (dict_set d ''level'' (PStr ''review'')) ''issues'' = Some (PList xs)"
    using issues by (simp add: map_of_dict_set)
  then show ?thesis
    using prov
    by (simp add: escalate_in_place_def escalate_def safety_now_own_plain safety_set_own_plain
          issues_append_own_plain dict_get_def Let_def)
qed

lemma list_or_as_list_arg_Plain:
  "arg_value objs' (list_or_as_list_arg objs (Plain v)) = PList (list_or_as_list v)"
  by (cases v) (simp_all add: list_or_as_list_arg_def list_or_as_list_def arg_value_def)

lemma dict_object_plain:
  "(case dict_object (Plain v) of Some sv \<Rightarrow> sv | None \<Rightarrow> Own (plain_entries default_safety))
   = Own (plain_entries (case v of PDict d \<Rightarrow> d | _ \<Rightarrow> default_safety))"
  by (cases v) simp_all

lemma normalize_safety_PDict:
  "normalize_safety (PDict (case v of PDict d \<Rightarrow> d | _ \<Rightarrow> default_safety)) = normalize_safety v"
  by (cases v) (simp_all add: normalize_safety_def)

lemma safety_statements_plain:
  "safety_statements L c (plain_entries kw) objs
   = (objs, Own (plain_entries (escalate L c (list_or_as_list (dict_get kw ''provenance'' (PList [])))
        (normalize_safety (dict_get kw ''safety'' (PDict default_safety))))))"
proof -
  obtain xs where xs: "map_of (normalize_safety (dict_get kw ''safety'' (PDict default_safety))) ''issues''
      = Some (PList xs)"
    using normalize_safety_issues by blast
  show ?thesis
    unfolding safety_statements_def safety_argument_def Let_def entry_get_plain dict_object_plain
      complete_safety_own_plain normalize_safety_PDict
    by (rule escalate_in_place_own_plain [OF xs list_or_as_list_arg_Plain])
qed

lemma assemble_message_sharing_plain:
  "assemble_message_sharing L e type0 sender (Plain content) (plain_entries kw) objs
   = assemble_message L e type0 sender content kw"
  by (simp add: assemble_message_sharing_def assemble_message_def Let_def entry_get_plain
        arg_value_Plain safety_statements_plain safety_now_own_plain list_or_as_list_arg_Plain
      split: option.splits)

lemma make_message_sharing_plain:
  "make_message_sharing L e type0 sender (Plain content) (plain_entries kw) objs
   = make_message L e type0 sender content kw"
  by (simp add: make_message_sharing_def make_message_def assemble_message_sharing_plain)

lemma truthy_not_ref:
  "\<not> is_ref a \<Longrightarrow> truthy (arg_value objs' a) = truthy (arg_value objs a)"
  by (cases a) (auto simp: is_ref_def arg_value_def)

lemma empty_list_not_ref:
  assumes "\<not> is_ref a" "arg_value objs (list_or_as_list_arg objs a) = PList []"
  shows "arg_value objs' (list_or_as_list_arg objs a) = PList []"
proof (cases a)
  case (Plain v)
  with assms(2) show ?thesis by (simp add: list_or_as_list_arg_Plain)
next
  case (SList xs)
  with assms(2) show ?thesis by (simp add: list_or_as_list_arg_def arg_value_def)
next
  case (SDict kvs)
  with assms(2) show ?thesis by (simp add: list_or_as_list_arg_def arg_value_def)
next
  case (Ref r)
  with assms(1) show ?thesis by (simp add: is_ref_def)
qed

lemma list_or_as_list_arg_is_list:
  "\<exists>xs. arg_value objs' (list_or_as_list_arg objs a) = PList xs"
proof (cases a)
  case (Plain v)
  then show ?thesis by (simp add: list_or_as_list_arg_Plain)
next
  case (SList xs)
  then show ?thesis by (simp add: list_or_as_list_arg_def arg_value_def)
next
  case (SDict kvs)
  then show ?thesis by (simp add: list_or_as_list_arg_def arg_value_def)
next
  case (Ref r)
  then show ?thesis by (cases r) (simp_all add: list_or_as_list_arg_def arg_value_def)
qed

lemma make_message_sharing_Inr:
  "make_message_sharing L e type0 sender content kw objs = Inr msg \<Longrightarrow>
   assemble_message_sharing L e type0 sender content kw objs = Inr msg
   \<and> validate_vlp L msg = (True, snd (validate_vlp L msg))"
  by (auto simp: make_message_sharing_def split: sum.splits prod.splits bool.splits)

lemma assemble_message_sharing_Inr:
  assumes "assemble_message_sharing L e type0 sender content kw objs0 = Inr msg"
  shows "\<exists>c. py_float L (arg_value objs0 (entry_get kw ''confidence'' (Plain (PFloat (Fin 1))))) = Some c
    \<and> msg = (let st = safety_statements L c kw objs0; objs = fst st in
            [(''id'', py_or (arg_value objs (entry_get kw ''id'' (Plain PNone))) (PStr (new_id e ''MSG''))),
             (''protocol'', PStr ''VLP/1.1''),
             (''type'', PStr (lower (strip type0))),
             (''timestamp'', py_or (arg_value objs (entry_get kw ''timestamp'' (Plain PNone))) (PStr (now_iso e))),
             (''session_id'', arg_value objs (entry_get kw ''session_id'' (Plain PNone))),
             (''seq'', arg_value objs (entry_get kw ''seq'' (Plain PNone))),
             (''sender'', PStr sender),
             (''receiver'', arg_value objs (entry_get kw ''receiver'' (Plain PNone))),
             (''topic'', arg_value objs (entry_get kw ''topic'' (Plain PNone))),
             (''content'', arg_value objs content),
             (''confidence'', PFloat c),
             (''provenance'', arg_value objs
                (list_or_as_list_arg objs0 (entry_get kw ''provenance'' (Plain (PList []))))),
             (''constraints'', arg_value objs
                (list_or_as_list_arg objs0 (entry_get kw ''constraints'' (Plain (PList []))))),
             (''safety'', PDict (safety_now st)),
             (''refers_to'', arg_value objs (entry_get kw ''refers_to'' (Plain PNone))),
             (''keywords'', PList (map PStr (normalize_keywords
                (list_or_as_list (arg_value objs (entry_get kw ''keywords'' (Plain (PList [])))))))),
             (''payload'', arg_value objs (entry_get kw ''payload'' (Plain PNone))),
             (''_extras'', arg_value objs (entry_get kw ''_extras'' (Plain (PDict []))))])"
proof (cases "py_float L (arg_value objs0 (entry_get kw ''confidence'' (Plain (PFloat (Fin 1)))))")
  case None
  with assms show ?thesis by (simp add: assemble_message_sharing_def)
next
  case (Some c)
  with assms show ?thesis by (simp add: assemble_message_sharing_def Let_def)
qed

lemma assemble_message_sharing_fields:
  assumes "assemble_message_sharing L e type0 sender content kw objs = Inr msg"
  shows "\<exists>c. py_float L (arg_value objs (entry_get kw ''confidence'' (Plain (PFloat (Fin 1))))) = Some c
    \<and> dict_get msg ''type'' PNone = PStr (lower (strip type0))
    \<and> dict_get msg ''confidence'' PNone = PFloat c
    \<and> dict_get msg ''refers_to'' PNone
        = arg_value (fst (safety_statements L c kw objs)) (entry_get kw ''refers_to'' (Plain PNone))
    \<and> dict_get msg ''provenance'' (PList [])
        = arg_value (fst (safety_statements L c kw objs))
            (list_or_as_list_arg objs (entry_get kw ''provenance'' (Plain (PList []))))
    \<and> dict_get msg ''safety'' PNone = PDict (safety_now (safety_statements L c kw objs))"
proof -
  from assemble_message_sharing_Inr [OF assms] obtain c where
    c: "py_float L (arg_value objs (entry_get kw ''confidence'' (Plain (PFloat (Fin 1))))) = Some c"
    and msg: "map_of msg ''type'' = Some (PStr (lower (strip type0)))"
      "map_of msg ''confidence'' = Some (PFloat c)"
      "map_of msg ''refers_to''
        = Some (arg_value (fst (safety_statements L c kw objs)) (entry_get kw ''refers_to'' (Plain PNone)))"
      "map_of msg ''provenance''
        = Some (arg_value (fst (safety_statements L c kw objs))
            (list_or_as_list_arg objs (entry_get kw ''provenance'' (Plain (PList [])))))"
      "map_of msg ''safety'' = Some (PDict (safety_now (safety_statements L c kw objs)))"
    by (auto simp: Let_def)
  show ?thesis
    using c by (simp add: dict_get_def msg)
qed

text \<open>
  What is proved below of \<open>make_message\<close> on the escalation and on the keywords holds of
  the general definitions too: the escalation sets the level and appends the issue
  whichever objects the arguments share, and the keywords of the message are those of the
  call, since the statements before add at most a dict to a list that the keywords hold.
\<close>

lemma map_of_entry_replace:
  "map_of (map (\<lambda>(k', a'). if k' = k then (k', a) else (k', a')) d) x
   = (if x = k \<and> k \<in> fst ` set d then Some a else map_of d x)"
proof (induction d)
  case Nil
  show ?case by simp
next
  case (Cons p d)
  obtain k0 a0 where p: "p = (k0, a0)" by (cases p)
  show ?case unfolding p using Cons.IH by (cases "k0 = k"; cases "x = k") simp_all
qed

lemma map_of_entry_set: "map_of (entry_set d k a) = (map_of d)(k \<mapsto> a)"
proof (cases "k \<in> fst ` set d")
  case True
  then show ?thesis
    by (auto simp: entry_set_def fun_eq_iff map_of_entry_replace)
next
  case False
  then have "map_of d k = None" by (simp add: map_of_eq_None_iff)
  with False show ?thesis
    by (auto simp: entry_set_def fun_eq_iff map_add_def split: option.splits)
qed

lemma map_of_values: "map_of (map (\<lambda>(k, a). (k, f a)) d) k = map_option f (map_of d k)"
  by (induct d) auto

lemma map_of_safety_now_set:
  "map_of (safety_now (safety_set k v st)) = (map_of (safety_now st))(k \<mapsto> v)"
proof -
  obtain objs sv where st: "st = (objs, sv)" by (cases st)
  show ?thesis
    by (cases sv)
       (auto simp: st safety_now_def safety_set_def shared_safety_now_def map_of_values
          map_of_entry_set fun_eq_iff arg_value_Plain)
qed

lemma items_safety_set: "issues_items (fst (safety_set k v st)) = issues_items (fst st)"
  by (auto simp: safety_set_def split: prod.splits safety_var.splits)

lemma items_complete_safety: "issues_items (fst (complete_safety st)) = issues_items (fst st)"
  by (simp add: complete_safety_def Let_def items_safety_set)

lemma keys_safety_now_set:
  "fst ` set (safety_now (safety_set k v st)) = insert k (fst ` set (safety_now st))"
proof -
  have "dom (map_of (safety_now (safety_set k v st))) = insert k (dom (map_of (safety_now st)))"
    by (simp add: map_of_safety_now_set)
  then show ?thesis by (simp add: dom_map_of_conv_image_fst)
qed

lemma complete_safety_issues:
  "\<exists>xs. map_of (safety_now (complete_safety st)) ''issues'' = Some (PList xs)"
proof -
  define st1 where "st1 = (if ''issues'' \<notin> fst ` set (safety_now st)
                   \<or> (case dict_get (safety_now st) ''issues'' PNone of PList xs \<Rightarrow> False | _ \<Rightarrow> True)
                then safety_set ''issues'' (PList []) st else st)"
  have S1: "\<exists>xs. map_of (safety_now st1) ''issues'' = Some (PList xs)"
  proof (cases "''issues'' \<notin> fst ` set (safety_now st)
                   \<or> (case dict_get (safety_now st) ''issues'' PNone of PList xs \<Rightarrow> False | _ \<Rightarrow> True)")
    case True
    then show ?thesis by (simp add: st1_def map_of_safety_now_set)
  next
    case False
    then obtain w where w: "map_of (safety_now st) ''issues'' = Some w"
      by (cases "map_of (safety_now st) ''issues''") (auto simp: map_of_eq_None_iff)
    with False show ?thesis
      by (cases w) (auto simp: st1_def dict_get_def)
  qed
  have "complete_safety st = (if ''level'' \<notin> fst ` set (safety_now st1)
                    then safety_set ''level'' (PStr ''safe'') st1 else st1)"
    by (simp add: complete_safety_def st1_def Let_def)
  with S1 show ?thesis by (auto simp: map_of_safety_now_set)
qed

lemma append_inline_value:
  assumes "resolve \<rho> a = PList xs" "append_inline a v = Some a'"
  shows "resolve \<rho> a' = PList (xs @ [v])"
  using assms by (cases "(a, v)" rule: append_inline.cases) auto

lemma issues_append_after_level:
  assumes issues: "map_of (safety_now st) ''issues'' = Some (PList xs)"
  shows "map_of (safety_now (issues_append v (safety_set ''level'' lv st))) ''level'' = Some lv
       \<and> map_of (safety_now (issues_append v (safety_set ''level'' lv st))) ''issues''
           = Some (PList (xs @ [v]))"
proof -
  obtain objs sv where st: "st = (objs, sv)" by (cases st)
  show ?thesis
  proof (cases sv)
    case Shared
    define es where "es = entry_set (safety_entries objs) ''level'' (Plain lv)"
    define \<rho> :: "inner_ref \<Rightarrow> pyval" where "\<rho> = (\<lambda>r. PList (issues_items objs))"
    from issues obtain a where a: "map_of (safety_entries objs) ''issues'' = Some a"
        "resolve \<rho> a = PList xs"
      by (auto simp: st Shared safety_now_def shared_safety_now_def map_of_values \<rho>_def)
    have es: "map_of es ''issues'' = Some a" "map_of es ''level'' = Some (Plain lv)"
      using a by (simp_all add: es_def map_of_entry_set)
    show ?thesis
    proof (cases "append_inline a v")
      case (Some a')
      have "resolve \<rho> a' = PList (xs @ [v])"
        using append_inline_value [OF a(2) Some] .
      then show ?thesis
        using es Some
        by (simp add: st Shared safety_set_def issues_append_def safety_now_def
              shared_safety_now_def map_of_values map_of_entry_set es_def [symmetric] \<rho>_def)
    next
      case None
      then have "a = Ref InnerIssues"
        using a(2) by (cases "(a, v)" rule: append_inline.cases) (auto intro: inner_ref.exhaust)
      then show ?thesis
        using es None a(2)
        by (simp add: st Shared safety_set_def issues_append_def safety_now_def
              shared_safety_now_def map_of_values map_of_entry_set es_def [symmetric] \<rho>_def)
    qed
  next
    case (Own es0)
    define es where "es = entry_set es0 ''level'' (Plain lv)"
    from issues obtain a where a: "map_of es0 ''issues'' = Some a"
        "arg_value objs a = PList xs"
      by (auto simp: st Own safety_now_def map_of_values)
    have es: "map_of es ''issues'' = Some a" "map_of es ''level'' = Some (Plain lv)"
      using a by (simp_all add: es_def map_of_entry_set)
    show ?thesis
    proof (cases "append_inline a v")
      case (Some a')
      have "arg_value objs a' = PList (xs @ [v])"
        using append_inline_value [OF a(2) [unfolded arg_value_def] Some]
        by (simp add: arg_value_def)
      then show ?thesis
        using es Some
        by (simp add: st Own safety_set_def issues_append_def safety_now_def
              map_of_values map_of_entry_set es_def [symmetric] arg_value_Plain)
    next
      case None
      then have "a = Ref IssuesList"
        using a(2)
        by (cases "(a, v)" rule: append_inline.cases)
           (auto simp: arg_value_def split: call_ref.splits)
      then show ?thesis
        using es None a(2)
        by (simp add: st Own safety_set_def issues_append_def safety_now_def
              map_of_values map_of_entry_set es_def [symmetric] arg_value_def)
    qed
  qed
qed

lemma list_or_as_list_arg_empty_items:
  assumes "issues_items objs' = issues_items objs"
  shows "arg_value objs' (list_or_as_list_arg objs a) = PList []
         \<longleftrightarrow> arg_value objs (list_or_as_list_arg objs a) = PList []"
proof (cases a)
  case (Plain v)
  then show ?thesis by (simp add: list_or_as_list_arg_Plain)
next
  case (SList xs)
  then show ?thesis by (simp add: list_or_as_list_arg_def arg_value_def)
next
  case (SDict kvs)
  then show ?thesis by (simp add: list_or_as_list_arg_def arg_value_def)
next
  case (Ref r)
  then show ?thesis using assms by (cases r) (simp_all add: list_or_as_list_arg_def arg_value_def)
qed

lemma make_message_sharing_escalates:
  assumes built: "make_message_sharing L e type0 sender content kw objs = Inr msg"
    and conf: "py_float L (arg_value objs (entry_get kw ''confidence'' (Plain (PFloat (Fin 1))))) = Some c"
    and high: "float_ge c float_0_9"
    and prov: "arg_value objs (list_or_as_list_arg objs (entry_get kw ''provenance'' (Plain (PList []))))
               = PList []"
    and level: "py_str L (dict_get (safety_now (complete_safety (objs, safety_argument kw)))
                  ''level'' PNone) \<noteq> ''review''"
  shows "\<exists>safety issues.
           map_of msg ''safety'' = Some (PDict safety)
         \<and> map_of safety ''level'' = Some (PStr ''review'')
         \<and> map_of safety ''issues'' = Some (PList issues)
         \<and> PDict [(''code'', PStr ''missing_provenance_high_confidence''),
                  (''detail'', PStr ''confidence >= 0.9 without provenance'')] \<in> set issues"
proof -
  define st1 where "st1 = complete_safety (objs, safety_argument kw)"
  define st2 where "st2 = issues_append escalation_issue (safety_set ''level'' (PStr ''review'') st1)"
  from built have asm: "assemble_message_sharing L e type0 sender content kw objs = Inr msg"
    by (simp add: make_message_sharing_Inr)
  from assemble_message_sharing_fields [OF asm] conf
  have "dict_get msg ''safety'' PNone = PDict (safety_now (safety_statements L c kw objs))"
    by auto
  moreover from assemble_message_sharing_Inr [OF asm] have "map_of msg ''safety'' \<noteq> None"
    by (auto simp: Let_def)
  ultimately have safety: "map_of msg ''safety'' = Some (PDict (safety_now (safety_statements L c kw objs)))"
    by (auto simp: dict_get_def)
  have "issues_items (fst st1) = issues_items objs"
    by (simp add: st1_def items_complete_safety)
  from list_or_as_list_arg_empty_items [OF this] prov
  have prov1: "arg_value (fst st1) (list_or_as_list_arg objs (entry_get kw ''provenance'' (Plain (PList []))))
               = PList []" by simp
  have st2: "safety_statements L c kw objs = st2"
    using high prov1 level
    by (simp add: safety_statements_def escalate_in_place_def Let_def st1_def [symmetric] st2_def)
  obtain xs where xs: "map_of (safety_now st1) ''issues'' = Some (PList xs)"
    using complete_safety_issues [of "(objs, safety_argument kw)"] by (auto simp: st1_def)
  from issues_append_after_level [OF xs, of escalation_issue "PStr ''review''"]
  have "map_of (safety_now st2) ''level'' = Some (PStr ''review'')"
       "map_of (safety_now st2) ''issues'' = Some (PList (xs @ [escalation_issue]))"
    by (simp_all add: st2_def)
  then show ?thesis
    using safety by (simp add: st2 escalation_issue_def)
qed

lemma items_issues_append:
  "issues_items (fst (issues_append v st)) = issues_items (fst st)
   \<or> issues_items (fst (issues_append v st)) = issues_items (fst st) @ [v]"
  by (auto simp: issues_append_def split: prod.splits safety_var.splits option.splits)

lemma items_safety_statements:
  "issues_items (fst (safety_statements L c kw objs)) = issues_items objs
   \<or> issues_items (fst (safety_statements L c kw objs)) = issues_items objs @ [escalation_issue]"
proof -
  define st1 where "st1 = complete_safety (objs, safety_argument kw)"
  have 1: "issues_items (fst st1) = issues_items objs"
    by (simp add: st1_def items_complete_safety)
  have 2: "issues_items (fst (safety_set ''level'' (PStr ''review'') st1)) = issues_items objs"
    by (simp add: items_safety_set 1)
  show ?thesis
    using items_issues_append [of escalation_issue "safety_set ''level'' (PStr ''review'') st1"] 1 2
    by (auto simp: safety_statements_def escalate_in_place_def Let_def st1_def [symmetric])
qed

lemma keyword_of_arg:
  fixes x :: "call_ref parg"
  shows "(case arg_value objs' x of PStr s \<Rightarrow> f s | _ \<Rightarrow> [])
       = (case arg_value objs x of PStr s \<Rightarrow> f s | _ \<Rightarrow> [])"
proof (cases x)
  case (Ref r)
  then show ?thesis by (cases r) (simp_all add: arg_value_def)
qed (simp_all add: arg_value_def)

lemma normalize_keywords_arg:
  assumes items: "issues_items objs' = issues_items objs
                  \<or> issues_items objs' = issues_items objs @ [escalation_issue]"
  shows "normalize_keywords (list_or_as_list (arg_value objs' a))
       = normalize_keywords (list_or_as_list (arg_value objs a))"
proof (cases a)
  case (Plain v)
  then show ?thesis by (simp add: arg_value_Plain)
next
  case (SList xs)
  have "map (\<lambda>x. case arg_value objs' x of
                    PStr s \<Rightarrow> (if strip s \<noteq> [] then [strip (lower s)] else []) | _ \<Rightarrow> []) xs
      = map (\<lambda>x. case arg_value objs x of
                    PStr s \<Rightarrow> (if strip s \<noteq> [] then [strip (lower s)] else []) | _ \<Rightarrow> []) xs"
    by (rule map_cong [OF refl]) (rule keyword_of_arg)
  then have "normalize_keywords (map (arg_value objs') xs) = normalize_keywords (map (arg_value objs) xs)"
    by (simp only: normalize_keywords_def map_map o_def)
  moreover have "list_or_as_list (arg_value objs'' (SList xs)) = map (arg_value objs'') xs" for objs''
    by (simp add: arg_value_def list_or_as_list_def)
  ultimately show ?thesis
    unfolding SList by simp
next
  case (SDict kvs)
  then show ?thesis
    by (simp add: arg_value_def list_or_as_list_def normalize_keywords_def)
next
  case (Ref r)
  show ?thesis
  proof (cases r)
    case SafetyDict
    with Ref show ?thesis
      by (simp add: arg_value_def list_or_as_list_def normalize_keywords_def)
  next
    case IssuesList
    with Ref items show ?thesis
      by (auto simp: arg_value_def list_or_as_list_def normalize_keywords_def escalation_issue_def)
  qed
qed

lemma make_message_sharing_keywords:
  assumes "make_message_sharing L e type0 sender content kw objs = Inr msg"
  shows "map_of msg ''keywords''
       = Some (PList (map PStr (normalize_keywords
            (list_or_as_list (arg_value objs (entry_get kw ''keywords'' (Plain (PList []))))))))"
proof -
  from assms have asm: "assemble_message_sharing L e type0 sender content kw objs = Inr msg"
    by (simp add: make_message_sharing_Inr)
  from assemble_message_sharing_Inr [OF asm] obtain c where
    "map_of msg ''keywords''
       = Some (PList (map PStr (normalize_keywords
            (list_or_as_list (arg_value (fst (safety_statements L c kw objs))
               (entry_get kw ''keywords'' (Plain (PList []))))))))"
    by (auto simp: Let_def)
  then show ?thesis
    by (simp add: normalize_keywords_arg [OF items_safety_statements])
qed

text \<open>
  The conversion of an \<open>int\<close> rounds to the nearest double, a tie going to the even
  significand.
\<close>

lemma double_of_int_examples:
  "double_of_int 9007199254740993 = 9007199254740992
   \<and> double_of_int 9007199254740995 = 9007199254740996
   \<and> double_of_int (- 9007199254740995) = - 9007199254740996
   \<and> py_float L (PInt 3) = Some (Fin 3)"
  by code_simp

section \<open>The evidence rule\<close>

lemma semantic_validate_evidence:
  assumes "dict_get msg ''type'' PNone = PStr ''evidence''"
    and "dict_get msg ''confidence'' PNone = PFloat c"
  shows "semantic_validate L msg =
     (if \<not> truthy (dict_get msg ''refers_to'' PNone)
      then (False, Some ''evidence messages must include refers_to'')
      else if (case dict_get msg ''provenance'' (PList []) of PList xs \<Rightarrow> xs | _ \<Rightarrow> []) = []
      then (False, Some ''evidence messages must include non-empty provenance'')
      else (True, None))"
  using assms
  by (simp add: semantic_validate_def Let_def py_or_def strip_evidence lower_evidence)

text \<open>
  Claim C3, as amended. Take a call of \<open>make_message\<close> whose type normalizes to
  \<open>evidence\<close> and whose \<open>refers_to\<close> and \<open>provenance\<close> arguments are not themselves one of
  the two objects that \<open>make_message\<close> changes in place (the dict passed as \<open>safety\<close> and
  the list under its key \<open>issues\<close>). If the call lacks \<open>refers_to\<close>, or its provenance
  normalizes to the empty sequence, it always fails. When the confidence converts to a
  float (so that the message is assembled) and the structural check accepts the assembled
  message, the error names the missing field: \<open>refers_to\<close> when it is missing, also when
  the provenance is missing too, and the provenance otherwise.
\<close>

theorem evidence_needs_refers_to_and_provenance:
  assumes ev: "lower (strip type0) = ''evidence''"
    and own: "\<not> is_ref (entry_get kw ''refers_to'' (Plain PNone))"
             "\<not> is_ref (entry_get kw ''provenance'' (Plain (PList [])))"
    and missing: "\<not> truthy (arg_value objs (entry_get kw ''refers_to'' (Plain PNone)))
                  \<or> arg_value objs (list_or_as_list_arg objs (entry_get kw ''provenance'' (Plain (PList []))))
                     = PList []"
  shows "(\<exists>exn. make_message_sharing L e type0 sender content kw objs = Inl exn)
       \<and> (\<forall>msg. assemble_message_sharing L e type0 sender content kw objs = Inr msg
                 \<and> schema_validate L msg = None
            \<longrightarrow> make_message_sharing L e type0 sender content kw objs
                = Inl (ValidationFailed (''VLP validation failed: ''
                    @ (if \<not> truthy (arg_value objs (entry_get kw ''refers_to'' (Plain PNone)))
                       then ''evidence messages must include refers_to''
                       else ''evidence messages must include non-empty provenance''))))"
proof -
  have sem: "semantic_validate L msg =
         (False, Some (if \<not> truthy (arg_value objs (entry_get kw ''refers_to'' (Plain PNone)))
                       then ''evidence messages must include refers_to''
                       else ''evidence messages must include non-empty provenance''))"
    if asm: "assemble_message_sharing L e type0 sender content kw objs = Inr msg" for msg
  proof -
    from assemble_message_sharing_fields [OF asm] obtain c where
      msg: "dict_get msg ''type'' PNone = PStr ''evidence''"
           "dict_get msg ''confidence'' PNone = PFloat c"
      and rt: "dict_get msg ''refers_to'' PNone
        = arg_value (fst (safety_statements L c kw objs)) (entry_get kw ''refers_to'' (Plain PNone))"
      and pv: "dict_get msg ''provenance'' (PList [])
        = arg_value (fst (safety_statements L c kw objs))
            (list_or_as_list_arg objs (entry_get kw ''provenance'' (Plain (PList []))))"
      by (auto simp: ev)
    have rt': "truthy (dict_get msg ''refers_to'' PNone)
        = truthy (arg_value objs (entry_get kw ''refers_to'' (Plain PNone)))"
      unfolding rt by (rule truthy_not_ref [OF own(1)])
    show ?thesis
    proof (cases "truthy (arg_value objs (entry_get kw ''refers_to'' (Plain PNone)))")
      case False
      then show ?thesis
        by (simp add: semantic_validate_evidence [OF msg] rt')
    next
      case True
      with missing have "arg_value objs (list_or_as_list_arg objs (entry_get kw ''provenance'' (Plain (PList []))))
                     = PList []" by simp
      from empty_list_not_ref [OF own(2) this] have "dict_get msg ''provenance'' (PList []) = PList []"
        unfolding pv .
      with True show ?thesis
        by (simp add: semantic_validate_evidence [OF msg] rt')
    qed
  qed
  have fails: "\<exists>exn. make_message_sharing L e type0 sender content kw objs = Inl exn"
  proof (cases "assemble_message_sharing L e type0 sender content kw objs")
    case (Inl exn)
    then show ?thesis by (simp add: make_message_sharing_def)
  next
    case (Inr msg)
    then show ?thesis
      by (cases "schema_validate L msg")
         (simp_all add: make_message_sharing_def validate_vlp_def sem [OF Inr])
  qed
  have named: "make_message_sharing L e type0 sender content kw objs
                = Inl (ValidationFailed (''VLP validation failed: ''
                    @ (if \<not> truthy (arg_value objs (entry_get kw ''refers_to'' (Plain PNone)))
                       then ''evidence messages must include refers_to''
                       else ''evidence messages must include non-empty provenance'')))"
    if "assemble_message_sharing L e type0 sender content kw objs = Inr msg" "schema_validate L msg = None"
    for msg
    using that by (simp add: make_message_sharing_def validate_vlp_def sem [OF that(1)])
  from fails named show ?thesis by blast
qed

text \<open>
  The claim as stated fails where the confidence does not convert:
  \<open>make_message("evidence", "Test", "Evidence without ref", confidence=None,
  provenance=["source"])\<close> lacks \<open>refers_to\<close>, and the error it raises is the one of
  \<open>float(None)\<close>, which names no field.
\<close>

theorem evidence_error_counterexample:
  "lower (strip ''evidence'') = ''evidence''
   \<and> \<not> is_ref (entry_get [(''confidence'', Plain PNone), (''provenance'', Plain (PList [PStr ''source'']))]
                 ''refers_to'' (Plain PNone :: call_ref parg))
   \<and> \<not> truthy (arg_value no_objects
        (entry_get [(''confidence'', Plain PNone), (''provenance'', Plain (PList [PStr ''source'']))]
                 ''refers_to'' (Plain PNone)))
   \<and> make_message_sharing spec_lib example_env ''evidence'' ''Test'' (Plain (PStr ''Evidence without ref''))
        [(''confidence'', Plain PNone), (''provenance'', Plain (PList [PStr ''source'']))] no_objects
      = Inl FloatConversionError"
  by code_simp

text \<open>
  The condition on the two arguments is needed. The escalation appends to the list under
  \<open>safety["issues"]\<close>; when the caller passes that very list as \<open>provenance\<close>, empty, the
  provenance holds the issue by the time the message is validated, and the evidence rule
  passes: under a structural check that accepts the message, the call returns it.
\<close>

lemma shared_list_example_built:
  "make_message_sharing lenient_lib example_env ''evidence'' ''TestAgent'' (Plain (PStr ''Evidence''))
     [(''confidence'', Plain (PFloat (Fin 1))), (''refers_to'', Plain (PStr ''MSG00000001'')),
      (''provenance'', Ref IssuesList),
      (''safety'', SDict [(''level'', Plain (PStr ''safe'')), (''issues'', Ref IssuesList)])]
     no_objects
   = Inr shared_list_example"
  by code_simp

theorem evidence_needs_refers_to_and_provenance_witness:
  "make_message_sharing spec_lib example_env ''evidence'' ''Test'' (Plain (PStr ''Evidence without ref''))
     [(''confidence'', Plain (PFloat (Fin (1 / 2)))), (''provenance'', Plain (PList [PStr ''source'']))]
     no_objects
   = Inl (ValidationFailed ''VLP validation failed: evidence messages must include refers_to'')
   \<and> make_message_sharing lenient_lib example_env ''evidence'' ''TestAgent'' (Plain (PStr ''Evidence''))
     [(''confidence'', Plain (PFloat (Fin 1))), (''refers_to'', Plain (PStr ''MSG00000001'')),
      (''provenance'', SList []), (''constraints'', Ref IssuesList),
      (''safety'', SDict [(''level'', Plain (PStr ''safe'')), (''issues'', Ref IssuesList)])]
     no_objects
   = Inl (ValidationFailed ''VLP validation failed: evidence messages must include non-empty provenance'')"
proof -
  define kw :: "(string \<times> call_ref parg) list" where
    "kw = [(''confidence'', Plain (PFloat (Fin (1 / 2)))),
           (''provenance'', Plain (PList [PStr ''source'']))]"
  define asm where
    "asm = assemble_message_sharing spec_lib example_env ''evidence'' ''Test''
             (Plain (PStr ''Evidence without ref'')) kw no_objects"
  have ev: "lower (strip ''evidence'') = ''evidence''"
    by code_simp
  have own: "\<not> is_ref (entry_get kw ''refers_to'' (Plain PNone))"
      "\<not> is_ref (entry_get kw ''provenance'' (Plain (PList [])))"
    by (simp_all add: kw_def entry_get_def is_ref_def)
  have none: "\<not> truthy (arg_value no_objects (entry_get kw ''refers_to'' (Plain PNone)))"
    by (simp add: kw_def entry_get_def arg_value_Plain)
  then have missing: "\<not> truthy (arg_value no_objects (entry_get kw ''refers_to'' (Plain PNone)))
      \<or> arg_value no_objects (list_or_as_list_arg no_objects
            (entry_get kw ''provenance'' (Plain (PList [])))) = PList []"
    by blast
  have "isl asm = False"
    unfolding asm_def kw_def by code_simp
  then have built: "assemble_message_sharing spec_lib example_env ''evidence'' ''Test''
                      (Plain (PStr ''Evidence without ref'')) kw no_objects = Inr (projr asm)"
    unfolding asm_def [symmetric] by (cases asm) auto
  have accepted: "schema_validate spec_lib (projr asm) = None"
    unfolding asm_def kw_def by code_simp
  from evidence_needs_refers_to_and_provenance [OF ev own missing, of spec_lib example_env
      "''Test''" "Plain (PStr ''Evidence without ref'')"] built accepted none
  have first: "make_message_sharing spec_lib example_env ''evidence'' ''Test''
      (Plain (PStr ''Evidence without ref'')) kw no_objects
    = Inl (ValidationFailed ''VLP validation failed: evidence messages must include refers_to'')"
    by auto
  define kw' :: "(string \<times> call_ref parg) list" where
    "kw' = [(''confidence'', Plain (PFloat (Fin 1))), (''refers_to'', Plain (PStr ''MSG00000001'')),
            (''provenance'', SList []), (''constraints'', Ref IssuesList),
            (''safety'', SDict [(''level'', Plain (PStr ''safe'')), (''issues'', Ref IssuesList)])]"
  define asm' where
    "asm' = assemble_message_sharing lenient_lib example_env ''evidence'' ''TestAgent''
              (Plain (PStr ''Evidence'')) kw' no_objects"
  have own': "\<not> is_ref (entry_get kw' ''refers_to'' (Plain PNone))"
      "\<not> is_ref (entry_get kw' ''provenance'' (Plain (PList [])))"
    by (simp_all add: kw'_def entry_get_def is_ref_def)
  have given: "truthy (arg_value no_objects (entry_get kw' ''refers_to'' (Plain PNone)))"
    by (simp add: kw'_def entry_get_def arg_value_Plain)
  have "arg_value no_objects (list_or_as_list_arg no_objects
            (entry_get kw' ''provenance'' (Plain (PList [])))) = PList []"
    by (simp add: kw'_def entry_get_def list_or_as_list_arg_def arg_value_def)
  then have missing': "\<not> truthy (arg_value no_objects (entry_get kw' ''refers_to'' (Plain PNone)))
      \<or> arg_value no_objects (list_or_as_list_arg no_objects
            (entry_get kw' ''provenance'' (Plain (PList [])))) = PList []"
    by blast
  have "isl asm' = False"
    unfolding asm'_def kw'_def by code_simp
  then have built': "assemble_message_sharing lenient_lib example_env ''evidence'' ''TestAgent''
                      (Plain (PStr ''Evidence'')) kw' no_objects = Inr (projr asm')"
    unfolding asm'_def [symmetric] by (cases asm') auto
  have accepted': "schema_validate lenient_lib (projr asm') = None"
    by (simp add: lenient_lib_def)
  from evidence_needs_refers_to_and_provenance [OF ev own' missing', of lenient_lib example_env
      "''TestAgent''" "Plain (PStr ''Evidence'')"] built' accepted' given
  have second: "make_message_sharing lenient_lib example_env ''evidence'' ''TestAgent''
      (Plain (PStr ''Evidence'')) kw' no_objects
    = Inl (ValidationFailed ''VLP validation failed: evidence messages must include non-empty provenance'')"
    by auto
  from first second show ?thesis
    unfolding kw_def kw'_def by simp
qed

section \<open>The validator's own check of the confidence rule\<close>

lemma validator_level:
  "(py_str L (py_or (dict_get (case dict_get msg ''safety'' PNone of
                                 PDict d \<Rightarrow> d | _ \<Rightarrow> default_safety)
                      ''level'' PNone) (PStr ''safe'')) = ''review'')
   = safety_level_is_review L msg"
  by (auto simp: dict_get_def py_or_def default_safety_def safety_level_is_review_def
           split: option.splits pyval.splits)

lemma provenance_is_empty_list:
  "provenance_is_empty msg
   \<longleftrightarrow> (case dict_get msg ''provenance'' (PList []) of PList xs \<Rightarrow> xs | _ \<Rightarrow> []) = []"
  by (simp add: provenance_is_empty_def split: pyval.splits)

lemma semantic_validate_unearned:
  assumes "unearned_confidence L msg"
  shows "\<not> fst (semantic_validate L msg)"
    and "earlier_rules_pass L msg \<Longrightarrow> semantic_validate L msg
           = (False, Some ''confidence >= 0.9 requires provenance or safety.level=review'')"
    and "\<not> earlier_rules_pass L msg \<Longrightarrow> semantic_validate L msg
           = (False, Some (earlier_rule_description L msg))"
proof -
  from assms obtain c where c: "py_float L (dict_get msg ''confidence'' PNone) = Some c"
      "float_ge c float_0_9"
    and prov: "(case dict_get msg ''provenance'' (PList []) of PList xs \<Rightarrow> xs | _ \<Rightarrow> []) = []"
    and lvl: "\<not> safety_level_is_review L msg"
    by (auto simp: unearned_confidence_def provenance_is_empty_list split: option.splits)
  from c(1) have notnone: "dict_get msg ''confidence'' PNone \<noteq> PNone"
    by auto
  show "\<not> fst (semantic_validate L msg)"
    using c prov lvl notnone
    by (simp add: semantic_validate_def Let_def validator_level)
  show "semantic_validate L msg
           = (False, Some ''confidence >= 0.9 requires provenance or safety.level=review'')"
    if "earlier_rules_pass L msg"
    using that c prov lvl notnone
    by (auto simp: semantic_validate_def Let_def validator_level earlier_rules_pass_def)
  show "semantic_validate L msg = (False, Some (earlier_rule_description L msg))"
    if "\<not> earlier_rules_pass L msg"
    using that c prov lvl notnone
    by (auto simp: semantic_validate_def Let_def validator_level earlier_rules_pass_def
          earlier_rule_description_def split: if_splits)
qed

text \<open>
  Claim C2, as amended. A message that \<open>validate_vlp\<close> accepts does not break the
  confidence rule: if its confidence is at least 0.9 and its provenance is empty, its
  \<open>safety.level\<close> is \<open>review\<close>. \<open>validate_vlp\<close> checks this on any message, built by
  \<open>make_message\<close> or not, and rejects every message that breaks the rule. The
  description it returns is the one of the confidence rule when the structural check
  accepts the message and no earlier semantic rule fails; otherwise it is the description
  of the first check that fails: the one of the structural check when that rejects the
  message, and else the one of the first semantic rule that fails.
\<close>

theorem validator_rechecks_confidence_rule:
  "(fst (validate_vlp L msg) \<longrightarrow> \<not> unearned_confidence L msg)
   \<and> (unearned_confidence L msg \<longrightarrow> \<not> fst (validate_vlp L msg))
   \<and> (unearned_confidence L msg \<and> schema_validate L msg = None \<and> earlier_rules_pass L msg
        \<longrightarrow> validate_vlp L msg
            = (False, Some ''confidence >= 0.9 requires provenance or safety.level=review''))
   \<and> (unearned_confidence L msg \<and> schema_validate L msg = None \<and> \<not> earlier_rules_pass L msg
        \<longrightarrow> validate_vlp L msg = (False, Some (earlier_rule_description L msg)))
   \<and> (\<forall>d. unearned_confidence L msg \<and> schema_validate L msg = Some d
        \<longrightarrow> validate_vlp L msg = (False, Some d))"
proof -
  have rejects: "\<not> fst (validate_vlp L msg)" if "unearned_confidence L msg"
    using semantic_validate_unearned(1) [OF that]
    by (cases "schema_validate L msg") (simp_all add: validate_vlp_def)
  have kind: "validate_vlp L msg
            = (False, Some ''confidence >= 0.9 requires provenance or safety.level=review'')"
    if "unearned_confidence L msg" "schema_validate L msg = None" "earlier_rules_pass L msg"
    using semantic_validate_unearned(2) [OF that(1) that(3)] that(2)
    by (simp add: validate_vlp_def)
  have earlier: "validate_vlp L msg = (False, Some (earlier_rule_description L msg))"
    if "unearned_confidence L msg" "schema_validate L msg = None" "\<not> earlier_rules_pass L msg"
    using semantic_validate_unearned(3) [OF that(1) that(3)] that(2)
    by (simp add: validate_vlp_def)
  have structural: "validate_vlp L msg = (False, Some d)" if "schema_validate L msg = Some d" for d
    using that by (simp add: validate_vlp_def)
  from rejects kind earlier structural show ?thesis by blast
qed

text \<open>
  The claim as stated fails on a \<open>response\<close> without \<open>refers_to\<close> that breaks the
  confidence rule: the rule for \<open>response\<close> comes first, and the description is its own.
\<close>

theorem unearned_error_counterexample:
  "unearned_confidence spec_lib response_example
   \<and> validate_vlp spec_lib response_example
       = (False, Some ''response messages must include refers_to'')"
  by code_simp

theorem validator_rechecks_confidence_rule_witness:
  "fst (validate_vlp spec_lib escalated_example)
   \<and> \<not> unearned_confidence spec_lib escalated_example
   \<and> unearned_confidence spec_lib unearned_example
   \<and> schema_validate spec_lib unearned_example = None
   \<and> earlier_rules_pass spec_lib unearned_example
   \<and> validate_vlp spec_lib unearned_example
       = (False, Some ''confidence >= 0.9 requires provenance or safety.level=review'')
   \<and> unearned_confidence spec_lib evidence_unearned_example
   \<and> schema_validate spec_lib evidence_unearned_example = None
   \<and> \<not> earlier_rules_pass spec_lib evidence_unearned_example
   \<and> validate_vlp spec_lib evidence_unearned_example
       = (False, Some ''evidence messages must include non-empty provenance'')
   \<and> unearned_confidence spec_lib null_provenance_example
   \<and> schema_validate spec_lib null_provenance_example = Some ''provenance is not of the required type''
   \<and> validate_vlp spec_lib null_provenance_example
       = (False, Some ''provenance is not of the required type'')"
proof -
  have ok: "fst (validate_vlp spec_lib escalated_example)"
    by code_simp
  have a: "unearned_confidence spec_lib unearned_example"
    by code_simp
  have b: "schema_validate spec_lib unearned_example = None"
    by code_simp
  have c: "earlier_rules_pass spec_lib unearned_example"
    by code_simp
  have a': "unearned_confidence spec_lib evidence_unearned_example"
    by code_simp
  have b': "schema_validate spec_lib evidence_unearned_example = None"
    by code_simp
  have c': "\<not> earlier_rules_pass spec_lib evidence_unearned_example"
    by code_simp
  have d': "earlier_rule_description spec_lib evidence_unearned_example
      = ''evidence messages must include non-empty provenance''"
    by code_simp
  have a'': "unearned_confidence spec_lib null_provenance_example"
    by code_simp
  have b'': "schema_validate spec_lib null_provenance_example
      = Some ''provenance is not of the required type''"
    by code_simp
  from validator_rechecks_confidence_rule [of spec_lib escalated_example] ok
  have 1: "\<not> unearned_confidence spec_lib escalated_example" by blast
  from validator_rechecks_confidence_rule [of spec_lib unearned_example] a b c
  have 2: "validate_vlp spec_lib unearned_example
       = (False, Some ''confidence >= 0.9 requires provenance or safety.level=review'')" by blast
  from validator_rechecks_confidence_rule [of spec_lib evidence_unearned_example] a' b' c'
  have 3: "validate_vlp spec_lib evidence_unearned_example
       = (False, Some (earlier_rule_description spec_lib evidence_unearned_example))" by blast
  from validator_rechecks_confidence_rule [of spec_lib null_provenance_example] a'' b''
  have 4: "validate_vlp spec_lib null_provenance_example
       = (False, Some ''provenance is not of the required type'')" by blast
  from ok 1 a b c 2 a' b' c' 3 d' a'' b'' 4 show ?thesis by simp
qed

section \<open>Keyword normalization\<close>

lemma of_char_less_256: "(of_char c :: nat) < 256"
proof -
  have "(of_char c :: nat) mod 256 = of_char c" by simp
  then show ?thesis by (metis mod_less_divisor zero_less_numeral)
qed

lemma of_char_lower_char:
  "(of_char (lower_char c) :: nat) =
     (let n = of_char c
      in if (65 \<le> n \<and> n \<le> 90) \<or> (192 \<le> n \<and> n \<le> 222 \<and> n \<noteq> 215) then n + 32 else n)"
  by (auto simp: lower_char_def Let_def)

lemma is_space_lower_char: "is_space (lower_char c) = is_space c"
  unfolding is_space_def of_char_lower_char Let_def by auto

lemma lower_char_idem: "lower_char (lower_char c) = lower_char c"
proof (rule of_char_eqI [where ?'a = nat])
  show "(of_char (lower_char (lower_char c)) :: nat) = of_char (lower_char c)"
    unfolding of_char_lower_char [of "lower_char c"] Let_def
    unfolding of_char_lower_char [of c] Let_def by auto
qed

lemma lower_idem: "lower (lower s) = lower s"
  by (simp add: lower_def lower_char_idem)

lemma dropWhile_space_lower:
  "dropWhile is_space (map lower_char s) = map lower_char (dropWhile is_space s)"
  by (simp add: dropWhile_map o_def is_space_lower_char)

lemma strip_lower: "strip (lower s) = lower (strip s)"
  by (simp add: strip_def lower_def rev_map dropWhile_space_lower)

lemma strip_idem: "strip (strip s) = strip s"
proof -
  define a where "a = dropWhile is_space s"
  define b where "b = dropWhile is_space (rev a)"
  have b: "b = [] \<or> \<not> is_space (hd b)"
    unfolding b_def using hd_dropWhile [of is_space "rev a"] by blast
  have a: "a = [] \<or> \<not> is_space (hd a)"
    unfolding a_def using hd_dropWhile [of is_space s] by blast
  have rb: "rev b = [] \<or> \<not> is_space (hd (rev b))"
  proof (cases "b = []")
    case True
    then show ?thesis by simp
  next
    case False
    obtain t where t: "rev a = t @ b"
      unfolding b_def by (metis takeWhile_dropWhile_id)
    then have "a = rev b @ rev t" by (metis rev_append rev_rev_ident)
    with False a have "hd (rev b) = hd a" "a \<noteq> []" by auto
    with a show ?thesis by auto
  qed
  have "strip (strip s) = rev (dropWhile is_space (rev (dropWhile is_space (rev b))))"
    by (simp add: strip_def a_def b_def)
  also have "dropWhile is_space (rev b) = rev b"
    using rb by (simp add: dropWhile_eq_self_iff)
  also have "rev (dropWhile is_space (rev (rev b))) = rev b"
    using b by (simp add: dropWhile_eq_self_iff)
  finally show ?thesis by (simp add: strip_def a_def b_def)
qed

lemma strip_lower_empty: "strip (lower s) = [] \<longleftrightarrow> strip s = []"
  unfolding strip_lower by (simp add: lower_def)

lemma fromkeys_first_occurrences:
  "fromkeys acc xs = acc @ filter (\<lambda>x. x \<notin> set acc) (first_occurrences xs)"
proof (induction xs arbitrary: acc)
  case Nil
  show ?case by simp
next
  case (Cons x xs)
  show ?case
  proof (cases "x \<in> set acc")
    case True
    then have "filter (\<lambda>y. y \<noteq> x \<and> y \<notin> set acc) (first_occurrences xs)
             = filter (\<lambda>y. y \<notin> set acc) (first_occurrences xs)"
      by (intro filter_cong) auto
    with True show ?thesis by (simp add: Cons.IH)
  next
    case False
    then show ?thesis by (simp add: Cons.IH conj_commute)
  qed
qed

lemma set_first_occurrences: "set (first_occurrences xs) = set xs"
  by (induction xs) auto

lemma distinct_first_occurrences: "distinct (first_occurrences xs)"
  by (induction xs) (auto simp: set_first_occurrences)

lemma first_occurrences_distinct: "distinct xs \<Longrightarrow> first_occurrences xs = xs"
  by (induction xs) (auto simp: filter_id_conv)

lemma normalize_keywords_spec:
  "normalize_keywords ks = spec_normalize_keywords (strings_of ks)"
proof -
  have "concat (map (\<lambda>k. case k of PStr s \<Rightarrow> (if strip s \<noteq> [] then [strip (lower s)] else []) | _ \<Rightarrow> []) ks)
      = filter (\<lambda>s. s \<noteq> []) (map (\<lambda>s. strip (lower s)) (strings_of ks))"
    by (induction ks) (auto simp: strings_of_def strip_lower_empty split: pyval.splits)
  then show ?thesis
    by (simp add: normalize_keywords_def spec_normalize_keywords_def fromkeys_first_occurrences)
qed

lemma normalized_keyword:
  assumes "k \<in> set (normalize_keywords ks)"
  shows "k \<noteq> [] \<and> strip (lower k) = k"
proof -
  from assms obtain s where "k = strip (lower s)" "k \<noteq> []"
    by (auto simp: normalize_keywords_spec spec_normalize_keywords_def set_first_occurrences)
  then show ?thesis
    by (simp add: strip_lower lower_idem strip_idem)
qed

lemma normalize_keywords_idem:
  "normalize_keywords (map PStr (normalize_keywords ks)) = normalize_keywords ks"
proof -
  define R where "R = normalize_keywords ks"
  have str: "strings_of (map PStr R) = R"
    by (induction R) (simp_all add: strings_of_def)
  have fixed: "map (\<lambda>s. strip (lower s)) R = R"
    unfolding R_def using normalized_keyword [of _ ks] by (simp add: map_idI)
  have ne: "filter (\<lambda>s. s \<noteq> []) R = R"
    unfolding R_def using normalized_keyword [of _ ks] by (simp add: filter_id_conv)
  have "distinct R"
    by (simp add: R_def normalize_keywords_spec spec_normalize_keywords_def distinct_first_occurrences)
  then show ?thesis
    unfolding R_def [symmetric]
    by (simp add: normalize_keywords_spec [of "map PStr R"] spec_normalize_keywords_def str fixed ne
          first_occurrences_distinct)
qed

lemma make_message_keywords:
  assumes "make_message L e type0 sender content kw = Inr msg"
  shows "map_of msg ''keywords''
           = Some (PList (map PStr (normalize_keywords
                (list_or_as_list (dict_get kw ''keywords'' (PList []))))))"
proof -
  from assms have "assemble_message L e type0 sender content kw = Inr msg"
    by (simp add: make_message_Inr)
  from assemble_message_Inr [OF this] show ?thesis by auto
qed

text \<open>
  Claim C7. The keyword normalization of \<open>make_message\<close> is the one the specification
  describes (lowercase and trim each keyword, drop what becomes empty, keep first
  occurrences in order; entries that are not strings are dropped as well). It is
  idempotent, it maps \<open>["Research", "  OKLAHOMA  ", "test", "test"]\<close> to
  \<open>["research", "oklahoma", "test"]\<close>, the message built carries the normalized
  sequence, and building with an already normalized sequence yields that same sequence.
\<close>

theorem keywords_are_normalized:
  "normalize_keywords ks = spec_normalize_keywords (strings_of ks)
   \<and> normalize_keywords (map PStr (normalize_keywords ks)) = normalize_keywords ks
   \<and> normalize_keywords [PStr ''Research'', PStr ''  OKLAHOMA  '', PStr ''test'', PStr ''test'']
       = [''research'', ''oklahoma'', ''test'']
   \<and> (make_message L e type0 sender content kw = Inr msg
        \<longrightarrow> map_of msg ''keywords''
            = Some (PList (map PStr (normalize_keywords
                 (list_or_as_list (dict_get kw ''keywords'' (PList [])))))))
   \<and> (make_message L e type0 sender content kw = Inr msg
        \<and> dict_get kw ''keywords'' (PList []) = PList (map PStr (normalize_keywords ks))
        \<longrightarrow> map_of msg ''keywords'' = Some (PList (map PStr (normalize_keywords ks))))"
proof -
  have example: "normalize_keywords [PStr ''Research'', PStr ''  OKLAHOMA  '', PStr ''test'', PStr ''test'']
       = [''research'', ''oklahoma'', ''test'']"
    by code_simp
  have again: "map_of msg ''keywords'' = Some (PList (map PStr (normalize_keywords ks)))"
    if "make_message L e type0 sender content kw = Inr msg"
      "dict_get kw ''keywords'' (PList []) = PList (map PStr (normalize_keywords ks))"
    using make_message_keywords [OF that(1)] that(2)
    by (simp add: list_or_as_list_def normalize_keywords_idem)
  from example again show ?thesis
    using normalize_keywords_spec normalize_keywords_idem make_message_keywords by blast
qed

theorem keywords_are_normalized_witness:
  "\<exists>msg. make_message spec_lib example_env ''claim'' ''TestAgent'' (PStr ''Test'')
             [(''confidence'', PFloat (Fin (1 / 2))),
              (''keywords'', PList [PStr ''Research'', PStr ''  OKLAHOMA  '', PStr ''test'',
                                    PStr ''test''])] = Inr msg
     \<and> map_of msg ''keywords'' = Some (PList [PStr ''research'', PStr ''oklahoma'', PStr ''test''])"
proof -
  define kw where "kw = [(''confidence'', PFloat (Fin (1 / 2))),
      (''keywords'', PList [PStr ''Research'', PStr ''  OKLAHOMA  '', PStr ''test'', PStr ''test''])]"
  define res where "res = make_message spec_lib example_env ''claim'' ''TestAgent'' (PStr ''Test'') kw"
  have "isl res = False"
    unfolding res_def kw_def by code_simp
  then have built: "make_message spec_lib example_env ''claim'' ''TestAgent'' (PStr ''Test'') kw
      = Inr (projr res)"
    unfolding res_def [symmetric] by (cases res) auto
  have norm: "normalize_keywords (list_or_as_list (dict_get kw ''keywords'' (PList [])))
      = [''research'', ''oklahoma'', ''test'']"
    unfolding kw_def by code_simp
  from keywords_are_normalized [of _ spec_lib example_env "''claim''" "''TestAgent''"
      "PStr ''Test''" kw "projr res"] built
  have "map_of (projr res) ''keywords''
      = Some (PList (map PStr (normalize_keywords
           (list_or_as_list (dict_get kw ''keywords'' (PList []))))))"
    by blast
  then have "map_of (projr res) ''keywords''
      = Some (PList [PStr ''research'', PStr ''oklahoma'', PStr ''test''])"
    unfolding norm by simp
  with built show ?thesis
    unfolding kw_def by (intro exI [of _ "projr res"]) simp
qed

section \<open>Messages built through the registry\<close>

lemma create_claim_default:
  "create_claim L e w r content default_confidence [] =
     (let s0 = heap w r;
          msg = [(''id'', PStr (''CLM-'' @ last_n 6 (session_id s0) @ ''-'' @ fmt_04d (seq s0 + 1))),
                 (''protocol'', PStr ''VLP/1.1''),
                 (''type'', PStr ''claim''),
                 (''timestamp'', PStr (now_iso e)),
                 (''session_id'', PStr (session_id s0)),
                 (''seq'', PInt (seq s0 + 2)),
                 (''sender'', PStr (agent_name s0)),
                 (''receiver'', PNone),
                 (''topic'', PNone),
                 (''content'', PStr content),
                 (''confidence'', PFloat (Fin float_0_9)),
                 (''provenance'', PList []),
                 (''constraints'', PList []),
                 (''safety'', PDict [(''level'', PStr ''review''),
                                    (''issues'', PList [escalation_issue])]),
                 (''refers_to'', PNone),
                 (''keywords'', PList []),
                 (''payload'', PNone),
                 (''_extras'', PDict [])]
      in (case schema_validate L msg of
            None \<Rightarrow> Inr msg
          | Some d \<Rightarrow> Inl (ValidationFailed (''VLP validation failed: '' @ d)),
          w\<lparr>heap := (heap w)(r := s0\<lparr>seq := seq s0 + 2\<rparr>)\<rparr>))"
  by (simp add: create_claim_def message_id_def next_seq_def Let_def make_message_def
        assemble_message_def default_confidence_def dict_get_def escalate_default
        list_or_as_list_def normalize_keywords_def py_or_def strip_claim lower_claim
        validate_vlp_def semantic_validate_def ac_simps
      split: option.splits)

lemma end_session_outcome:
  "end_session L e w r summary =
     (let s0 = heap w r;
          msg = [(''id'', PStr (''CTX-'' @ last_n 6 (session_id s0) @ ''-'' @ fmt_04d (seq s0 + 1))),
                 (''protocol'', PStr ''VLP/1.1''),
                 (''type'', PStr ''session_context''),
                 (''timestamp'', PStr (now_iso e)),
                 (''session_id'', PStr (session_id s0)),
                 (''seq'', PInt (seq s0 + 2)),
                 (''sender'', PStr (agent_name s0)),
                 (''receiver'', PNone),
                 (''topic'', PNone),
                 (''content'', py_or (PStr summary) (PStr (''Session ended for '' @ agent_name s0))),
                 (''confidence'', PFloat (Fin 1)),
                 (''provenance'', PList [PStr ''agent_session'',
                                        PStr (''agent_'' @ str_int (agent_number s0))]),
                 (''constraints'', PList []),
                 (''safety'', PDict default_safety),
                 (''refers_to'', PNone),
                 (''keywords'', PList []),
                 (''payload'', PDict [(''agent_number'', PInt (agent_number s0)),
                                     (''started_at'', PStr (started_at s0)),
                                     (''ended_at'', PStr (now_full e)),
                                     (''total_messages'', PInt (seq s0 + 2))]),
                 (''_extras'', PDict [])];
          w1 = w\<lparr>heap := (heap w)(r := s0\<lparr>seq := seq s0 + 2\<rparr>)\<rparr>
      in case schema_validate L msg of
           None \<Rightarrow> (Inr msg, w1\<lparr>sessions := (sessions w)(session_id s0 := None)\<rparr>)
         | Some d \<Rightarrow> (Inl (ValidationFailed (''VLP validation failed: '' @ d)), w1))"
  by (simp add: end_session_def message_id_def next_seq_def Let_def make_message_def
        assemble_message_def dict_get_def no_escalation_with_provenance dict_pop_def
        list_or_as_list_def normalize_keywords_def py_or_def strip_session_context
        lower_session_context validate_vlp_def semantic_validate_def ac_simps
      split: option.splits)

text \<open>
  Claim C9. \<open>create_claim(session, content)\<close>, with the default confidence and no other
  argument, assembles a message whose confidence is the default 0.9, whose
  \<open>safety.level\<close> is \<open>review\<close> and whose \<open>safety.issues\<close> holds the entry coded
  \<open>missing_provenance_high_confidence\<close>: the default meets the threshold of the
  auto-escalation. That message is what the call returns; the only other outcome is the
  error of a structural check that rejects it.
\<close>

theorem create_claim_defaults_escalate:
  "float_ge (Fin float_0_9) float_0_9
   \<and> (\<exists>msg safety issues.
         map_of msg ''confidence'' = Some default_confidence
       \<and> default_confidence = PFloat (Fin float_0_9)
       \<and> map_of msg ''safety'' = Some (PDict safety)
       \<and> map_of safety ''level'' = Some (PStr ''review'')
       \<and> map_of safety ''issues'' = Some (PList issues)
       \<and> PDict [(''code'', PStr ''missing_provenance_high_confidence''),
                (''detail'', PStr ''confidence >= 0.9 without provenance'')] \<in> set issues
       \<and> fst (create_claim L e w r content default_confidence [])
           = (case schema_validate L msg of
                None \<Rightarrow> Inr msg
              | Some d \<Rightarrow> Inl (ValidationFailed (''VLP validation failed: '' @ d))))"
proof -
  define s0 where "s0 = heap w r"
  define msg where "msg =
     [(''id'', PStr (''CLM-'' @ last_n 6 (session_id s0) @ ''-'' @ fmt_04d (seq s0 + 1))),
      (''protocol'', PStr ''VLP/1.1''), (''type'', PStr ''claim''),
      (''timestamp'', PStr (now_iso e)), (''session_id'', PStr (session_id s0)),
      (''seq'', PInt (seq s0 + 2)), (''sender'', PStr (agent_name s0)),
      (''receiver'', PNone), (''topic'', PNone), (''content'', PStr content),
      (''confidence'', PFloat (Fin float_0_9)), (''provenance'', PList []),
      (''constraints'', PList []),
      (''safety'', PDict [(''level'', PStr ''review''), (''issues'', PList [escalation_issue])]),
      (''refers_to'', PNone), (''keywords'', PList []), (''payload'', PNone),
      (''_extras'', PDict [])]"
  have outcome: "fst (create_claim L e w r content default_confidence [])
           = (case schema_validate L msg of
                None \<Rightarrow> Inr msg
              | Some d \<Rightarrow> Inl (ValidationFailed (''VLP validation failed: '' @ d)))"
    unfolding create_claim_default Let_def msg_def s0_def by simp
  have fields: "map_of msg ''confidence'' = Some default_confidence"
    "map_of msg ''safety''
       = Some (PDict [(''level'', PStr ''review''), (''issues'', PList [escalation_issue])])"
    by (simp_all add: msg_def default_confidence_def)
  show ?thesis
    using outcome fields
    by (intro conjI exI [of _ msg]
          exI [of _ "[(''level'', PStr ''review''), (''issues'', PList [escalation_issue])]"]
          exI [of _ "[escalation_issue]"])
       (simp_all add: escalation_issue_def default_confidence_def)
qed

theorem create_claim_defaults_escalate_witness:
  "\<exists>msg safety issues.
       fst (create_claim spec_lib example_env registered_world 0 ''Research completed''
              default_confidence []) = Inr msg
     \<and> map_of msg ''confidence'' = Some (PFloat (Fin float_0_9))
     \<and> map_of msg ''safety'' = Some (PDict safety)
     \<and> map_of safety ''level'' = Some (PStr ''review'')
     \<and> map_of safety ''issues'' = Some (PList issues)
     \<and> PDict [(''code'', PStr ''missing_provenance_high_confidence''),
              (''detail'', PStr ''confidence >= 0.9 without provenance'')] \<in> set issues"
proof -
  have returned: "isl (fst (create_claim spec_lib example_env registered_world 0
                    ''Research completed'' default_confidence [])) = False"
    by code_simp
  from create_claim_defaults_escalate [of spec_lib example_env registered_world 0
      "''Research completed''"]
  obtain msg safety issues where m:
    "map_of msg ''confidence'' = Some default_confidence"
    "map_of msg ''safety'' = Some (PDict safety)"
    "map_of safety ''level'' = Some (PStr ''review'')"
    "map_of safety ''issues'' = Some (PList issues)"
    "PDict [(''code'', PStr ''missing_provenance_high_confidence''),
            (''detail'', PStr ''confidence >= 0.9 without provenance'')] \<in> set issues"
    "fst (create_claim spec_lib example_env registered_world 0 ''Research completed''
            default_confidence [])
       = (case schema_validate spec_lib msg of
            None \<Rightarrow> Inr msg
          | Some d \<Rightarrow> Inl (ValidationFailed (''VLP validation failed: '' @ d)))"
    by blast
  from returned m(6) have "fst (create_claim spec_lib example_env registered_world 0
      ''Research completed'' default_confidence []) = Inr msg"
    by (cases "schema_validate spec_lib msg") simp_all
  with m(1-5) show ?thesis
    unfolding default_confidence_def by blast
qed

lemma observer_session_id:
  "generate_session_id example_env ''The Observer'' = ''S-2025-01-04-observer-3f2a1b''"
  by code_simp

lemma create_claim_default_world:
  "snd (create_claim L e w r content default_confidence [])
   = w\<lparr>heap := (heap w)(r := (heap w r)\<lparr>seq := seq (heap w r) + 2\<rparr>)\<rparr>"
  by (simp add: create_claim_default Let_def)

lemma registered_world_reached:
  "(let (r, w0) = start_session example_env empty_world ''The Observer'' 4;
        w1 = snd (create_claim spec_lib example_env w0 r ''Research started'' default_confidence []);
        w2 = snd (create_claim spec_lib example_env w1 r ''Research completed'' default_confidence [])
    in r = 0 \<and> heap w2 r = heap registered_world 0 \<and> sessions w2 = sessions registered_world)"
proof -
  have started: "now_full example_env = ''2025-01-04T10:00:00.250000Z''"
    by (simp add: example_env_def)
  show ?thesis
    by (simp add: start_session_def create_claim_default_world Let_def empty_world_def
          AgentSession_init_def observer_session_id registered_world_def observer_session_def
          started)
qed

text \<open>
  Claim C4. \<open>end_session\<close> takes two sequence numbers from the session: the first goes
  into the message id (through \<open>message_id("CTX")\<close>), the second is the \<open>seq\<close> field.
  The \<open>payload.total_messages\<close> of the message it returns is the session's counter after
  both, and afterwards \<open>get_session\<close> no longer finds the session.
\<close>

theorem end_session_counts_both_advances:
  assumes "end_session L e w r summary = (Inr msg, w')"
  shows "map_of msg ''id''
           = Some (PStr (''CTX-'' @ last_n 6 (session_id (heap w r)) @ ''-''
                           @ fmt_04d (seq (heap w r) + 1)))
       \<and> map_of msg ''seq'' = Some (PInt (seq (heap w r) + 2))
       \<and> seq (heap w' r) = seq (heap w r) + 2
       \<and> (\<exists>payload. map_of msg ''payload'' = Some (PDict payload)
             \<and> map_of payload ''total_messages'' = Some (PInt (seq (heap w' r))))
       \<and> get_session w' (session_id (heap w r)) = None"
  using assms unfolding end_session_outcome Let_def
  by (auto simp: get_session_def split: option.splits)

theorem end_session_counts_both_advances_witness:
  "\<exists>msg w'. end_session spec_lib example_env registered_world 0 ''Completed successfully''
               = (Inr msg, w')
     \<and> get_session registered_world ''S-2025-01-04-observer-3f2a1b'' = Some 0
     \<and> map_of msg ''id'' = Some (PStr ''CTX-3f2a1b-0005'')
     \<and> map_of msg ''seq'' = Some (PInt 6)
     \<and> seq (heap w' 0) = 6
     \<and> (\<exists>payload. map_of msg ''payload'' = Some (PDict payload)
           \<and> map_of payload ''total_messages'' = Some (PInt 6))
     \<and> get_session w' ''S-2025-01-04-observer-3f2a1b'' = None"
proof -
  define res where
    "res = end_session spec_lib example_env registered_world 0 ''Completed successfully''"
  have "isl (fst res) = False"
    unfolding res_def by code_simp
  then have res: "end_session spec_lib example_env registered_world 0 ''Completed successfully''
      = (Inr (projr (fst res)), snd res)"
    unfolding res_def [symmetric] by (cases res; cases "fst res") auto
  have s: "seq (heap registered_world 0) = 4"
          "session_id (heap registered_world 0) = ''S-2025-01-04-observer-3f2a1b''"
    by (simp_all add: registered_world_def observer_session_def)
  have g: "get_session registered_world ''S-2025-01-04-observer-3f2a1b'' = Some 0"
    by (simp add: get_session_def registered_world_def)
  have f: "fmt_04d 5 = ''0005''" "last_n 6 ''S-2025-01-04-observer-3f2a1b'' = ''3f2a1b''"
    by code_simp+
  from end_session_counts_both_advances [OF res] g show ?thesis
    unfolding s by (intro exI [of _ "projr (fst res)"] exI [of _ "snd res"]) (auto simp: res f)
qed

text \<open>
  Claim C10. \<open>end_session\<close> on a session whose id is not in the registry (for instance a
  second \<open>end_session\<close> on the same session) has the outcome it would have were the
  session registered: the absence raises nothing. It assembles a fresh
  \<open>session_context\<close> message and returns it (the only other outcome is the error of a
  structural check that rejects the message), the session gives two more sequence numbers,
  the registry is left as it was, and no other session object changes.
\<close>

theorem end_session_of_unregistered_session:
  assumes "sessions w (session_id (heap w r)) = None"
  shows "fst (end_session L e w r summary)
           = fst (end_session L e (w\<lparr>sessions := (sessions w)(session_id (heap w r) \<mapsto> r)\<rparr>)
                    r summary)
       \<and> seq (heap (snd (end_session L e w r summary)) r) = seq (heap w r) + 2
       \<and> sessions (snd (end_session L e w r summary)) = sessions w
       \<and> (\<forall>r'. r' \<noteq> r \<longrightarrow> heap (snd (end_session L e w r summary)) r' = heap w r')
       \<and> (\<exists>msg payload.
             map_of msg ''type'' = Some (PStr ''session_context'')
           \<and> map_of msg ''seq'' = Some (PInt (seq (heap w r) + 2))
           \<and> map_of msg ''payload'' = Some (PDict payload)
           \<and> map_of payload ''total_messages'' = Some (PInt (seq (heap w r) + 2))
           \<and> fst (end_session L e w r summary)
               = (case schema_validate L msg of
                    None \<Rightarrow> Inr msg
                  | Some d \<Rightarrow> Inl (ValidationFailed (''VLP validation failed: '' @ d))))"
proof -
  define s0 where "s0 = heap w r"
  define payload where "payload =
     [(''agent_number'', PInt (agent_number s0)), (''started_at'', PStr (started_at s0)),
      (''ended_at'', PStr (now_full e)), (''total_messages'', PInt (seq s0 + 2))]"
  define msg where "msg =
     [(''id'', PStr (''CTX-'' @ last_n 6 (session_id s0) @ ''-'' @ fmt_04d (seq s0 + 1))),
      (''protocol'', PStr ''VLP/1.1''), (''type'', PStr ''session_context''),
      (''timestamp'', PStr (now_iso e)), (''session_id'', PStr (session_id s0)),
      (''seq'', PInt (seq s0 + 2)), (''sender'', PStr (agent_name s0)),
      (''receiver'', PNone), (''topic'', PNone),
      (''content'', py_or (PStr summary) (PStr (''Session ended for '' @ agent_name s0))),
      (''confidence'', PFloat (Fin 1)),
      (''provenance'', PList [PStr ''agent_session'', PStr (''agent_'' @ str_int (agent_number s0))]),
      (''constraints'', PList []), (''safety'', PDict default_safety),
      (''refers_to'', PNone), (''keywords'', PList []),
      (''payload'', PDict payload), (''_extras'', PDict [])]"
  have same: "(sessions w)(session_id s0 := None) = sessions w"
    using assms by (auto simp: s0_def fun_eq_iff)
  have out: "end_session L e w r summary =
      (case schema_validate L msg of
         None \<Rightarrow> (Inr msg, w\<lparr>heap := (heap w)(r := s0\<lparr>seq := seq s0 + 2\<rparr>)\<rparr>)
       | Some d \<Rightarrow> (Inl (ValidationFailed (''VLP validation failed: '' @ d)),
                   w\<lparr>heap := (heap w)(r := s0\<lparr>seq := seq s0 + 2\<rparr>)\<rparr>))"
    unfolding end_session_outcome Let_def s0_def [symmetric] same msg_def payload_def
    by (simp split: option.splits)
  have out': "fst (end_session L e (w\<lparr>sessions := (sessions w)(session_id (heap w r) \<mapsto> r)\<rparr>)
                r summary)
      = (case schema_validate L msg of
           None \<Rightarrow> Inr msg
         | Some d \<Rightarrow> Inl (ValidationFailed (''VLP validation failed: '' @ d)))"
    unfolding end_session_outcome Let_def msg_def payload_def s0_def
    by (simp split: option.splits)
  have fst_out: "fst (end_session L e w r summary)
      = (case schema_validate L msg of
           None \<Rightarrow> Inr msg
         | Some d \<Rightarrow> Inl (ValidationFailed (''VLP validation failed: '' @ d)))"
    unfolding out by (simp split: option.splits)
  have snd_out: "snd (end_session L e w r summary)
      = w\<lparr>heap := (heap w)(r := s0\<lparr>seq := seq s0 + 2\<rparr>)\<rparr>"
    unfolding out by (simp split: option.splits)
  have fields: "map_of msg ''type'' = Some (PStr ''session_context'')"
    "map_of msg ''seq'' = Some (PInt (seq (heap w r) + 2))"
    "map_of msg ''payload'' = Some (PDict payload)"
    "map_of payload ''total_messages'' = Some (PInt (seq (heap w r) + 2))"
    by (simp_all add: msg_def payload_def s0_def)
  show ?thesis
    unfolding snd_out
    using fst_out out' fields
    by (intro conjI exI [of _ msg] exI [of _ payload]) (simp_all add: s0_def)
qed

theorem end_session_of_unregistered_session_witness:
  "sessions unregistered_world (session_id (heap unregistered_world 0)) = None
   \<and> (\<exists>msg payload.
         fst (end_session spec_lib example_env unregistered_world 0 ''Completed successfully'')
           = Inr msg
       \<and> map_of msg ''type'' = Some (PStr ''session_context'')
       \<and> map_of msg ''seq'' = Some (PInt 8)
       \<and> map_of msg ''payload'' = Some (PDict payload)
       \<and> map_of payload ''total_messages'' = Some (PInt 8))
   \<and> seq (heap (snd (end_session spec_lib example_env unregistered_world 0
                        ''Completed successfully'')) 0) = 8
   \<and> sessions (snd (end_session spec_lib example_env unregistered_world 0
                       ''Completed successfully'')) = sessions unregistered_world"
proof -
  have absent: "sessions unregistered_world (session_id (heap unregistered_world 0)) = None"
    by (simp add: unregistered_world_def)
  have s: "seq (heap unregistered_world 0) = 6"
    by (simp add: unregistered_world_def observer_session_def)
  have returned: "isl (fst (end_session spec_lib example_env unregistered_world 0
                              ''Completed successfully'')) = False"
    by code_simp
  from end_session_of_unregistered_session [OF absent, of spec_lib example_env
      "''Completed successfully''", unfolded s]
  obtain msg payload where m:
    "map_of msg ''type'' = Some (PStr ''session_context'')"
    "map_of msg ''seq'' = Some (PInt (6 + 2))"
    "map_of msg ''payload'' = Some (PDict payload)"
    "map_of payload ''total_messages'' = Some (PInt (6 + 2))"
    "fst (end_session spec_lib example_env unregistered_world 0 ''Completed successfully'')
       = (case schema_validate spec_lib msg of
            None \<Rightarrow> Inr msg
          | Some d \<Rightarrow> Inl (ValidationFailed (''VLP validation failed: '' @ d)))"
    and rest:
    "seq (heap (snd (end_session spec_lib example_env unregistered_world 0
                       ''Completed successfully'')) 0) = 6 + 2"
    "sessions (snd (end_session spec_lib example_env unregistered_world 0
                      ''Completed successfully'')) = sessions unregistered_world"
    by blast
  from returned m(5) have "fst (end_session spec_lib example_env unregistered_world 0
      ''Completed successfully'') = Inr msg"
    by (cases "schema_validate spec_lib msg") simp_all
  with m(1-4) rest absent show ?thesis
    by (intro conjI exI [of _ msg] exI [of _ payload]) simp_all
qed

section \<open>Session identifiers\<close>

lemma session_id_hyphens:
  "5 \<le> length (filter (\<lambda>c. c = CHR ''-'') (generate_session_id e name))"
  by (simp add: generate_session_id_def strftime_Y_m_d_def Let_def)

text \<open>
  Claim C5, where the code departs from it. On 2025-01-04, \<open>start_session("The Observer", 4)\<close>
  yields the id \<open>S-2025-01-04-observer-3f2a1b\<close>: the date is written with
  \<open>%Y-%m-%d\<close> and has ten characters, not eight. Whatever the date and the name, the
  id holds at least five hyphens, so \<open>session_id.split("-")\<close> has at least six parts,
  where \<open>test_session_id_format\<close> asserts four. And \<open>replace("the ", "")\<close> removes
  every occurrence of \<open>the \<close>, not only a leading one: \<open>Breathe Deeply\<close> gives the slug
  \<open>breadeeply\<close>.
\<close>

theorem session_id_has_hyphenated_date:
  "generate_session_id example_env ''The Observer'' = ''S-2025-01-04-observer-3f2a1b''
   \<and> session_id (heap (snd (start_session example_env empty_world ''The Observer'' 4))
                  (fst (start_session example_env empty_world ''The Observer'' 4)))
       = ''S-2025-01-04-observer-3f2a1b''
   \<and> strftime_Y_m_d (today example_env) = ''2025-01-04''
   \<and> length (strftime_Y_m_d (today example_env)) = 10
   \<and> 5 \<le> length (filter (\<lambda>c. c = CHR ''-'') (generate_session_id e name))
   \<and> generate_session_id example_env ''Breathe Deeply'' = ''S-2025-01-04-breadeeply-3f2a1b''"
proof -
  have "generate_session_id example_env ''The Observer'' = ''S-2025-01-04-observer-3f2a1b''"
    by code_simp
  moreover have "session_id (heap (snd (start_session example_env empty_world ''The Observer'' 4))
                  (fst (start_session example_env empty_world ''The Observer'' 4)))
       = ''S-2025-01-04-observer-3f2a1b''"
    by code_simp
  moreover have "strftime_Y_m_d (today example_env) = ''2025-01-04''"
    by code_simp
  moreover have "generate_session_id example_env ''Breathe Deeply'' = ''S-2025-01-04-breadeeply-3f2a1b''"
    by code_simp
  ultimately show ?thesis
    using session_id_hyphens [of e name] by (simp)
qed

section \<open>NDJSON round trip\<close>

lemma nel_example_built:
  "make_message spec_lib example_env ''claim'' ''Agent1'' (PStr (''line one'' @ [CHR 0x85] @ ''line two''))
     [(''confidence'', PFloat (Fin (1 / 2)))] = Inr nel_example"
  by code_simp

lemma strip_empty_iff: "strip s = [] \<longleftrightarrow> (\<forall>c\<in>set s. is_space c)"
proof -
  have "(\<forall>c\<in>set (dropWhile is_space s). is_space c) \<longleftrightarrow> dropWhile is_space s = []"
    using hd_dropWhile [of is_space s]
    by (cases "dropWhile is_space s") (auto dest: set_dropWhileD)
  then have "strip s = [] \<longleftrightarrow> dropWhile is_space s = []"
    unfolding strip_def rev_is_Nil_conv dropWhile_eq_Nil_conv set_rev by blast
  then show ?thesis
    by simp
qed

lemma from_ndjson_loop_length:
  "from_ndjson_loop L lines out = Inr res \<Longrightarrow>
   length res = length out + length (filter (\<lambda>l. strip l \<noteq> []) lines)"
  by (induction lines arbitrary: out) (auto split: if_splits option.splits)

lemma linebreak_CR: "is_linebreak (CHR 0x0D)"
  by (simp add: is_linebreak_def)

lemma splitlines_from_break:
  assumes "\<forall>a\<in>set A. \<not> is_linebreak a" "is_linebreak c" "c \<noteq> CHR 0x0D"
  shows "splitlines_from cur (A @ c # B) = (cur @ A) # splitlines_from [] B"
  using assms(1)
proof (induction A arbitrary: cur)
  case Nil
  show ?case using assms(2,3) by (cases B) simp_all
next
  case (Cons a A)
  obtain d ds where rest: "A @ c # B = d # ds" by (cases A) auto
  from Cons.prems have "\<not> is_linebreak a" "\<forall>a\<in>set A. \<not> is_linebreak a" by auto
  moreover from this(1) have "a \<noteq> CHR 0x0D" using linebreak_CR by auto
  ultimately show ?case
    using Cons.IH [of "cur @ [a]"] by (simp add: rest)
qed

lemma splitlines_from_starts:
  "s \<noteq> [] \<Longrightarrow> \<exists>r ls. splitlines_from cur s = (cur @ r) # ls"
  by (induction cur s rule: splitlines_from.induct) auto

lemma splitlines_from_first_char:
  assumes "\<not> is_linebreak b"
  shows "\<exists>r ls. splitlines_from [] (b # B) = (b # r) # ls"
proof (cases B)
  case Nil
  with assms show ?thesis by simp
next
  case (Cons d ds)
  from assms have "b \<noteq> CHR 0x0D" using linebreak_CR by auto
  with assms Cons splitlines_from_starts [of "d # ds" "[b]"] show ?thesis by auto
qed

lemma from_ndjson_two_lines:
  assumes rest: "dropWhile (\<lambda>c. \<not> is_linebreak c) ndjson = c # b # B"
    and c: "c \<noteq> CHR 0x0D"
    and b: "\<not> is_linebreak b" "\<not> is_space b"
    and first: "\<not> (\<forall>a\<in>set (takeWhile (\<lambda>c. \<not> is_linebreak c) ndjson). is_space a)"
    and res: "from_ndjson L ndjson = Inr res"
  shows "2 \<le> length res"
proof -
  define A where "A = takeWhile (\<lambda>c. \<not> is_linebreak c) ndjson"
  have decomp: "ndjson = A @ c # b # B"
    unfolding A_def rest [symmetric] by simp
  have A: "\<forall>a\<in>set A. \<not> is_linebreak a"
    unfolding A_def by (auto dest: set_takeWhileD)
  have brk: "is_linebreak c"
    using hd_dropWhile [of "\<lambda>c. \<not> is_linebreak c" ndjson] rest by auto
  obtain r ls where second: "splitlines_from [] (b # B) = (b # r) # ls"
    using splitlines_from_first_char [OF b(1)] by blast
  have lines: "splitlines ndjson = A # (b # r) # ls"
    unfolding splitlines_def decomp using splitlines_from_break [OF A brk c, of "[]" "b # B"] second
    by simp
  have "strip A \<noteq> []"
    using first by (simp add: strip_empty_iff A_def)
  moreover have "strip (b # r) \<noteq> []"
    using b(2) by (auto simp: strip_empty_iff)
  ultimately show ?thesis
    using from_ndjson_loop_length [of L "splitlines ndjson" "[]" res] res
    by (simp add: from_ndjson_def lines)
qed

lemma nel_text:
  "dropWhile (\<lambda>c. \<not> is_linebreak c) (to_ndjson L [nel_example])
   = CHR 0x85 # CHR ''l'' # tl (tl (dropWhile (\<lambda>c. \<not> is_linebreak c) (to_ndjson L [nel_example])))"
  by (simp add: to_ndjson_def join_def nel_example_def json_str_def json_escape_char_def
        is_linebreak_def Let_def)

lemma nel_first:
  "\<not> (\<forall>a\<in>set (takeWhile (\<lambda>c. \<not> is_linebreak c) (to_ndjson L [nel_example])). is_space a)"
  by (simp add: to_ndjson_def join_def nel_example_def json_str_def json_escape_char_def
        is_linebreak_def is_space_def Let_def)

text \<open>
  Claim C8, where the code departs from it. \<open>json.dumps(m, ensure_ascii=False)\<close> writes
  the character NEXT LINE (U+0085) as it is, and \<open>splitlines\<close> takes it for a line
  boundary. For the valid message \<open>nel_example\<close>, whatever \<open>json.loads\<close> and the float
  printer do, \<open>from_ndjson(to_ndjson([m]))\<close> is not \<open>[m]\<close>: the text is read as two
  non-blank lines, so the call raises or returns at least two values.
\<close>

theorem ndjson_roundtrip_breaks_on_next_line:
  "from_ndjson L (to_ndjson L [nel_example]) \<noteq> Inr [PDict nel_example]"
proof
  assume "from_ndjson L (to_ndjson L [nel_example]) = Inr [PDict nel_example]"
  from from_ndjson_two_lines [OF nel_text _ _ _ nel_first this]
  show False by (simp add: is_linebreak_def is_space_def)
qed

end
